theory Spec2Isabelle
  imports Complex_Main "HOL-Library.Sublist"
begin

section \<open>Python values\<close>

text \<open>
  The engine of \<^verbatim>\<open>database.py\<close> stores dynamically typed Python values. The values that
  pass \<^verbatim>\<open>Table._validate_types\<close> are \<^verbatim>\<open>None\<close>, \<^verbatim>\<open>bool\<close> (a subclass of
  \<^verbatim>\<open>int\<close>), \<^verbatim>\<open>int\<close>, \<^verbatim>\<open>float\<close> and \<^verbatim>\<open>str\<close>.

  A float is kept by its mathematical value (every finite double is a rational), with the
  negative zero, the two infinities and NaN apart. Comparisons between floats and between
  an int and a float are exact in Python, so they are modelled on the rationals. The two
  operations that round or format a double (\<^verbatim>\<open>float(s)\<close> and \<^verbatim>\<open>str(f)\<close>) are not
  modelled: they are fields of the host record below, and every theorem holds for any host.

  A string is a list of characters; a \<^typ>\<open>char\<close> stands for a code point below 256.
\<close>

datatype pyfloat = FNum rat | NegZero | PosInf | NegInf | NaN

datatype pyval = PNone | PBool bool | PInt int | PFloat pyfloat | PStr string

text \<open>A \<^verbatim>\<open>dict\<close> with string keys, in insertion order.\<close>

type_synonym pydict = "(string \<times> pyval) list"

datatype dtype = INTEGER | TEXT | REAL

text \<open>
  Every \<^verbatim>\<open>raise\<close> of \<^verbatim>\<open>database.py\<close> raises \<^verbatim>\<open>ValueError\<close>; the raise sites differ
  by their message, kept here as the constructor, with the values the message is built
  from; the text of the message is not built. \<open>IntStrDigits\<close> is the \<^verbatim>\<open>ValueError\<close>
  that \<^verbatim>\<open>str\<close> raises on an int of more digits than the interpreter's limit. The other
  errors come from the Python runtime:
  \<^verbatim>\<open>TypeError\<close> from an ordering comparison between unordered types, \<^verbatim>\<open>KeyError\<close>
  from a subscript of a dict by a missing key, \<^verbatim>\<open>IndexError\<close> from a subscript of an
  empty list, \<^verbatim>\<open>re.error\<close> from the regex compiler.
\<close>

datatype value_error =
    UnsupportedDataType string
  | PrimaryKeyNotFound string
  | TableAlreadyExists string
  | PrimaryKeyViolation string pyval
  | ColumnDoesNotExist string
  | ExpectsType string dtype string
  | InvalidLikeCondition string
  | InvalidCondition string
  | IntStrDigits

datatype error = ValueError value_error | TypeError | KeyError string | IndexError | ReError

record pyhost =
  float_of_str :: "string \<Rightarrow> pyfloat option"
  str_of_float :: "pyfloat \<Rightarrow> string"
  re_match_other :: "string \<Rightarrow> string \<Rightarrow> error + bool"

subsection \<open>isinstance, type names\<close>

fun isinstance_int :: "pyval \<Rightarrow> bool" where
  "isinstance_int (PInt i) = True"
| "isinstance_int (PBool b) = True"
| "isinstance_int v = False"

fun isinstance_float :: "pyval \<Rightarrow> bool" where
  "isinstance_float (PFloat f) = True"
| "isinstance_float v = False"

fun isinstance_str :: "pyval \<Rightarrow> bool" where
  "isinstance_str (PStr s) = True"
| "isinstance_str v = False"

fun type_name :: "pyval \<Rightarrow> string" where
  "type_name PNone = ''NoneType''"
| "type_name (PBool b) = ''bool''"
| "type_name (PInt i) = ''int''"
| "type_name (PFloat f) = ''float''"
| "type_name (PStr s) = ''str''"

subsection \<open>Comparison operators\<close>

fun fnum :: "pyfloat \<Rightarrow> rat" where
  "fnum (FNum r) = r"
| "fnum f = 0"

fun float_lt :: "pyfloat \<Rightarrow> pyfloat \<Rightarrow> bool" where
  "float_lt NaN b = False"
| "float_lt a NaN = False"
| "float_lt a NegInf = False"
| "float_lt NegInf b = True"
| "float_lt PosInf b = False"
| "float_lt a PosInf = True"
| "float_lt a b = (fnum a < fnum b)"

fun float_eq :: "pyfloat \<Rightarrow> pyfloat \<Rightarrow> bool" where
  "float_eq NaN b = False"
| "float_eq a NaN = False"
| "float_eq NegInf b = (b = NegInf)"
| "float_eq a NegInf = False"
| "float_eq PosInf b = (b = PosInf)"
| "float_eq a PosInf = False"
| "float_eq a b = (fnum a = fnum b)"

definition float_le :: "pyfloat \<Rightarrow> pyfloat \<Rightarrow> bool" where
  "float_le a b = (float_lt a b \<or> float_eq a b)"

text \<open>Strings are ordered lexicographically by code point.\<close>

fun str_lt :: "string \<Rightarrow> string \<Rightarrow> bool" where
  "str_lt [] [] = False"
| "str_lt [] (y # ys) = True"
| "str_lt (x # xs) [] = False"
| "str_lt (x # xs) (y # ys) =
     ((of_char x :: nat) < of_char y \<or> (x = y \<and> str_lt xs ys))"

definition str_le :: "string \<Rightarrow> string \<Rightarrow> bool" where
  "str_le s t = (str_lt s t \<or> s = t)"

text \<open>The numeric value of a bool, an int or a float; \<^verbatim>\<open>True\<close> is 1.\<close>

fun num_of :: "pyval \<Rightarrow> pyfloat option" where
  "num_of (PBool b) = Some (FNum (if b then 1 else 0))"
| "num_of (PInt i) = Some (FNum (of_int i))"
| "num_of (PFloat f) = Some f"
| "num_of v = None"

text \<open>\<^verbatim>\<open>a == b\<close>: numbers by value, strings by content, \<^verbatim>\<open>None\<close> only with itself.\<close>

definition py_eq :: "pyval \<Rightarrow> pyval \<Rightarrow> bool" where
  "py_eq a b =
     (case (num_of a, num_of b) of
        (Some x, Some y) \<Rightarrow> float_eq x y
      | _ \<Rightarrow> (case (a, b) of
                (PStr s, PStr t) \<Rightarrow> s = t
              | (PNone, PNone) \<Rightarrow> True
              | _ \<Rightarrow> False))"

text \<open>
  An ordering comparison: between two numbers, or between two strings; every other pair of
  operands raises \<^verbatim>\<open>TypeError\<close>.
\<close>

definition py_order ::
  "(pyfloat \<Rightarrow> pyfloat \<Rightarrow> bool) \<Rightarrow> (string \<Rightarrow> string \<Rightarrow> bool) \<Rightarrow> pyval \<Rightarrow> pyval \<Rightarrow> error + bool" where
  "py_order fop sop a b =
     (case (num_of a, num_of b) of
        (Some x, Some y) \<Rightarrow> Inr (fop x y)
      | _ \<Rightarrow> (case (a, b) of
                (PStr s, PStr t) \<Rightarrow> Inr (sop s t)
              | _ \<Rightarrow> Inl TypeError))"

definition py_lt :: "pyval \<Rightarrow> pyval \<Rightarrow> error + bool" where
  "py_lt = py_order float_lt str_lt"

definition py_gt :: "pyval \<Rightarrow> pyval \<Rightarrow> error + bool" where
  "py_gt = py_order (\<lambda>x y. float_lt y x) (\<lambda>s t. str_lt t s)"

definition py_le :: "pyval \<Rightarrow> pyval \<Rightarrow> error + bool" where
  "py_le = py_order float_le str_le"

definition py_ge :: "pyval \<Rightarrow> pyval \<Rightarrow> error + bool" where
  "py_ge = py_order (\<lambda>x y. float_le y x) (\<lambda>s t. str_le t s)"

section \<open>String operations of the Python library\<close>

text \<open>The code points below 256 for which \<^verbatim>\<open>str.isspace\<close> holds.\<close>

definition whitespace :: "char list" where
  "whitespace = [CHR 0x09, CHR 0x0A, CHR 0x0B, CHR 0x0C, CHR 0x0D, CHR 0x1C, CHR 0x1D,
                 CHR 0x1E, CHR 0x1F, CHR 0x20, CHR 0x85, CHR 0xA0]"

definition strip_chars :: "char list \<Rightarrow> string \<Rightarrow> string" where
  "strip_chars cs s = rev (dropWhile (\<lambda>c. c \<in> set cs) (rev (dropWhile (\<lambda>c. c \<in> set cs) s)))"

text \<open>\<^verbatim>\<open>s.strip()\<close>\<close>

definition str_strip :: "string \<Rightarrow> string" where
  "str_strip = strip_chars whitespace"

text \<open>\<^verbatim>\<open>s.strip("'\"")\<close>: the single and the double quote.\<close>

definition strip_quotes :: "string \<Rightarrow> string" where
  "strip_quotes = strip_chars [CHR 0x27, CHR 0x22]"

text \<open>\<^verbatim>\<open>sub in s\<close>\<close>

fun str_contains :: "string \<Rightarrow> string \<Rightarrow> bool" where
  "str_contains sub [] = (sub = [])"
| "str_contains sub (c # cs) = (prefix sub (c # cs) \<or> str_contains sub cs)"

text \<open>
  \<^verbatim>\<open>s.split(sep)\<close>: cut at the leftmost occurrences of \<open>sep\<close>, which do not overlap.
  Every separator of the source is a non-empty literal (Python raises on an empty one; here
  the string then comes back whole).
\<close>

function str_split :: "string \<Rightarrow> string \<Rightarrow> string list" where
  "str_split sep [] = [[]]"
| "str_split sep (c # cs) =
     (if sep \<noteq> [] \<and> prefix sep (c # cs)
      then [] # str_split sep (drop (length sep) (c # cs))
      else (case str_split sep cs of [] \<Rightarrow> [[c]] | p # ps \<Rightarrow> (c # p) # ps))"
  by pat_completeness auto
termination
  by (relation "measure (\<lambda>(sep, s). length s)") (auto simp: Suc_le_eq)

text \<open>\<^verbatim>\<open>s.replace(c, new)\<close> for a one-character \<open>c\<close>.\<close>

definition str_replace_char :: "char \<Rightarrow> string \<Rightarrow> string \<Rightarrow> string" where
  "str_replace_char c new s = concat (map (\<lambda>x. if x = c then new else [x]) s)"

subsection \<open>int(s) and str(i)\<close>

definition digit_val :: "char \<Rightarrow> nat option" where
  "digit_val c = map_of (zip ''0123456789'' [0, 1, 2, 3, 4, 5, 6, 7, 8, 9]) c"

text \<open>
  The digits after the first one: a digit, or one underscore followed by a digit.
\<close>

fun digits_rest :: "nat \<Rightarrow> string \<Rightarrow> nat option" where
  "digits_rest n [] = Some n"
| "digits_rest n (c # cs) =
     (if c = CHR ''_'' then
        (case cs of
           [] \<Rightarrow> None
         | d # ds \<Rightarrow> (case digit_val d of None \<Rightarrow> None | Some v \<Rightarrow> digits_rest (10 * n + v) ds))
      else (case digit_val c of None \<Rightarrow> None | Some v \<Rightarrow> digits_rest (10 * n + v) cs))"

definition digits :: "string \<Rightarrow> nat option" where
  "digits s =
     (case s of
        [] \<Rightarrow> None
      | c # cs \<Rightarrow> (case digit_val c of None \<Rightarrow> None | Some v \<Rightarrow> digits_rest v cs))"

text \<open>
  \<^verbatim>\<open>int(s)\<close> in base 10. The whitespace it skips at both ends is not that of
  \<^verbatim>\<open>str.strip\<close>: of the code points below 256 it skips the six ASCII ones
  (0x09 to 0x0D and the space) and the two beyond ASCII (0x85, 0xA0), not the separators
  0x1C to 0x1F. Then come an optional sign and digits with single underscores
  between them. A string of more digits than \<^verbatim>\<open>sys.get_int_max_str_digits()\<close>, 4300
  unless the interpreter is configured otherwise, is refused. \<open>None\<close> is the
  \<^verbatim>\<open>ValueError\<close> the source catches.
\<close>

definition int_whitespace :: "char list" where
  "int_whitespace = [CHR 0x09, CHR 0x0A, CHR 0x0B, CHR 0x0C, CHR 0x0D, CHR 0x20, CHR 0x85, CHR 0xA0]"

definition int_max_str_digits :: nat where
  "int_max_str_digits = 4300"

definition limited_digits :: "string \<Rightarrow> nat option" where
  "limited_digits s =
     (if int_max_str_digits < length (filter (\<lambda>c. c \<noteq> CHR ''_'') s) then None else digits s)"

definition int_of_str :: "string \<Rightarrow> int option" where
  "int_of_str s0 =
     (case strip_chars int_whitespace s0 of
        [] \<Rightarrow> None
      | c # cs \<Rightarrow>
          if c = CHR ''-'' then map_option (\<lambda>n. - int n) (limited_digits cs)
          else if c = CHR ''+'' then map_option int (limited_digits cs)
          else map_option int (limited_digits (c # cs)))"

definition digit_char :: "nat \<Rightarrow> char" where
  "digit_char d = ''0123456789'' ! d"

fun str_of_nat :: "nat \<Rightarrow> string" where
  "str_of_nat n =
     (if n < 10 then [digit_char n] else str_of_nat (n div 10) @ [digit_char (n mod 10)])"

declare str_of_nat.simps [simp del]

definition str_of_int :: "int \<Rightarrow> string" where
  "str_of_int i = (if i < 0 then CHR ''-'' # str_of_nat (nat (- i)) else str_of_nat (nat i))"

text \<open>
  \<^verbatim>\<open>str(v)\<close>. It raises on an int of more digits than the limit above.
\<close>

fun py_str :: "pyhost \<Rightarrow> pyval \<Rightarrow> error + string" where
  "py_str H PNone = Inr ''None''"
| "py_str H (PBool b) = Inr (if b then ''True'' else ''False'')"
| "py_str H (PInt i) =
     (if int_max_str_digits < length (str_of_nat (nat \<bar>i\<bar>)) then Inl (ValueError IntStrDigits)
      else Inr (str_of_int i))"
| "py_str H (PFloat f) = Inr (str_of_float H f)"
| "py_str H (PStr s) = Inr s"

subsection \<open>The regular expressions that LIKE builds\<close>

text \<open>
  \<^verbatim>\<open>re.match(f"^{regex_pattern}$", value)\<close> is modelled on the patterns made of ordinary
  characters, \<^verbatim>\<open>.\<close> and an atom followed by \<^verbatim>\<open>*\<close>. There \<^verbatim>\<open>.\<close> matches any character but
  a newline, \<^verbatim>\<open>*\<close> repeats its atom zero or more times, and the final \<^verbatim>\<open>$\<close> matches at the
  end of the string or just before a newline that ends it. A pattern that holds any other
  special character of \<^verbatim>\<open>re\<close> is handed to the host.
\<close>

datatype re_atom = ReChar char | ReDot

datatype re_item = Single re_atom | Star re_atom

definition re_special :: "char list" where
  "re_special = [CHR ''.'', CHR ''^'', CHR ''$'', CHR ''*'', CHR ''+'', CHR ''?'', CHR ''{'',
                 CHR ''}'', CHR ''['', CHR '']'', CHR 0x5C, CHR ''|'', CHR ''('', CHR '')'']"

definition re_atom_of :: "char \<Rightarrow> re_atom option" where
  "re_atom_of c =
     (if c = CHR ''.'' then Some ReDot
      else if c \<in> set re_special then None
      else Some (ReChar c))"

fun re_parse :: "string \<Rightarrow> re_item list option" where
  "re_parse [] = Some []"
| "re_parse [c] = map_option (\<lambda>a. [Single a]) (re_atom_of c)"
| "re_parse (c # d # cs) =
     (case re_atom_of c of
        None \<Rightarrow> None
      | Some a \<Rightarrow>
          if d = CHR ''*'' then map_option ((#) (Star a)) (re_parse cs)
          else map_option ((#) (Single a)) (re_parse (d # cs)))"

fun atom_matches :: "re_atom \<Rightarrow> char \<Rightarrow> bool" where
  "atom_matches (ReChar c) x = (x = c)"
| "atom_matches ReDot x = (x \<noteq> CHR 0x0A)"

fun re_run :: "re_item list \<Rightarrow> string \<Rightarrow> bool" where
  "re_run [] s = (s = [] \<or> s = [CHR 0x0A])"
| "re_run (Single a # items) [] = False"
| "re_run (Single a # items) (x # xs) = (atom_matches a x \<and> re_run items xs)"
| "re_run (Star a # items) [] = re_run items []"
| "re_run (Star a # items) (x # xs) =
     (re_run items (x # xs) \<or> (atom_matches a x \<and> re_run (Star a # items) xs))"

definition re_match_anchored :: "pyhost \<Rightarrow> string \<Rightarrow> string \<Rightarrow> error + bool" where
  "re_match_anchored H regex_pattern s =
     (case re_parse regex_pattern of
        Some items \<Rightarrow> Inr (re_run items s)
      | None \<Rightarrow> re_match_other H (''^'' @ regex_pattern @ ''$'') s)"

section \<open>The condition evaluator\<close>

text \<open>\<^verbatim>\<open>pattern.replace('%', '.*').replace('_', '.')\<close>\<close>

definition like_regex :: "string \<Rightarrow> string" where
  "like_regex pattern = str_replace_char (CHR ''_'') ''.'' (str_replace_char (CHR ''%'') ''.*'' pattern)"

text \<open>
  The literal of a comparison, parsed after the kind of the row's value; a failed parse
  (the \<^verbatim>\<open>ValueError\<close> caught by the source) leaves the text.
\<close>

definition compare_value :: "pyhost \<Rightarrow> pyval \<Rightarrow> string \<Rightarrow> pyval" where
  "compare_value H row_value value_str =
     (if isinstance_int row_value then
        (case int_of_str value_str of Some i \<Rightarrow> PInt i | None \<Rightarrow> PStr value_str)
      else if isinstance_float row_value then
        (case float_of_str H value_str of Some f \<Rightarrow> PFloat f | None \<Rightarrow> PStr value_str)
      else PStr value_str)"

definition comparison_ops :: "string list" where
  "comparison_ops = [''>='', ''<='', ''<>'', ''='', ''>'', ''<'']"

text \<open>The loop over the operators, in the order of the list.\<close>

fun compare_loop :: "pyhost \<Rightarrow> pydict \<Rightarrow> string \<Rightarrow> string list \<Rightarrow> error + bool" where
  "compare_loop H row condition [] = Inl (ValueError (InvalidCondition condition))"
| "compare_loop H row condition (op # ops) =
     (if str_contains ('' '' @ op @ '' '') condition then
        (let parts = str_split ('' '' @ op @ '' '') condition in
         if length parts \<noteq> 2 then Inl (ValueError (InvalidCondition condition))
         else
           (let col_name = str_strip (parts ! 0);
                value_str = strip_quotes (str_strip (parts ! 1))
            in case map_of row col_name of
                 None \<Rightarrow> Inl (ValueError (ColumnDoesNotExist col_name))
               | Some row_value \<Rightarrow>
                   (let compare_value = compare_value H row_value value_str in
                    if op = ''='' then Inr (py_eq row_value compare_value)
                    else if op = ''>'' then py_gt row_value compare_value
                    else if op = ''<'' then py_lt row_value compare_value
                    else if op = ''>='' then py_ge row_value compare_value
                    else if op = ''<='' then py_le row_value compare_value
                    else if op = ''<>'' then Inr (\<not> py_eq row_value compare_value)
                    else compare_loop H row condition ops)))
      else compare_loop H row condition ops)"

definition Table_evaluate_condition :: "pyhost \<Rightarrow> pydict \<Rightarrow> string \<Rightarrow> error + bool" where
  "Table_evaluate_condition H row condition0 =
     (let condition = str_strip condition0 in
      if str_contains '' LIKE '' condition then
        (let parts = str_split '' LIKE '' condition in
         if length parts \<noteq> 2 then Inl (ValueError (InvalidLikeCondition condition))
         else
           (let col_name = str_strip (parts ! 0);
                pattern = strip_quotes (str_strip (parts ! 1))
            in case map_of row col_name of
                 None \<Rightarrow> Inl (ValueError (ColumnDoesNotExist col_name))
               | Some v \<Rightarrow>
                   (case py_str H v of
                      Inl e \<Rightarrow> Inl e
                    | Inr s \<Rightarrow> re_match_anchored H (like_regex pattern) s)))
      else compare_loop H row condition comparison_ops)"

text \<open>The conjunction: the first false condition ends the loop, an error ends the call.\<close>

fun all_conditions :: "pyhost \<Rightarrow> pydict \<Rightarrow> string list \<Rightarrow> error + bool" where
  "all_conditions H row [] = Inr True"
| "all_conditions H row (condition # conditions) =
     (case Table_evaluate_condition H row condition of
        Inl e \<Rightarrow> Inl e
      | Inr b \<Rightarrow> if \<not> b then Inr False else all_conditions H row conditions)"

definition Table_evaluate_where :: "pyhost \<Rightarrow> pydict \<Rightarrow> string \<Rightarrow> error + bool" where
  "Table_evaluate_where H row where_clause =
     all_conditions H row (map str_strip (str_split '' AND '' where_clause))"

section \<open>Tables\<close>

text \<open>
  \<^verbatim>\<open>Column.__init__\<close> admits the three data types only, so a column keeps its type as a
  value of \<^typ>\<open>dtype\<close>. \<^verbatim>\<open>column_map\<close> is the dict built once from the columns: a name
  that occurs twice maps to its last column.
\<close>

record column =
  name :: string
  data_type :: dtype
  is_primary_key :: bool

record table =
  table_name :: string
  columns :: "column list"
  primary_key :: string
  rows :: "pydict list"
  next_id :: int

definition column_map :: "table \<Rightarrow> string \<Rightarrow> column option" where
  "column_map t = map_of (rev (map (\<lambda>col. (name col, col)) (columns t)))"

text \<open>
  \<^verbatim>\<open>data_type.upper()\<close> is one of the three names exactly when the string with its ASCII
  letters in upper case is: below 256 no other character has an upper case made of ASCII
  letters that occur in these names.
\<close>

definition upper_ascii :: "char \<Rightarrow> char" where
  "upper_ascii c =
     (case map_of (zip ''abcdefghijklmnopqrstuvwxyz'' ''ABCDEFGHIJKLMNOPQRSTUVWXYZ'') c of
        None \<Rightarrow> c
      | Some u \<Rightarrow> u)"

definition data_type_of :: "string \<Rightarrow> dtype option" where
  "data_type_of s =
     (let u = map upper_ascii s in
      if u = ''INTEGER'' then Some INTEGER
      else if u = ''TEXT'' then Some TEXT
      else if u = ''REAL'' then Some REAL
      else None)"

text \<open>\<^verbatim>\<open>Column.__init__\<close>\<close>

definition Column_init :: "string \<Rightarrow> string \<Rightarrow> bool \<Rightarrow> error + column" where
  "Column_init col_name col_type is_pk =
     (case data_type_of col_type of
        None \<Rightarrow> Inl (ValueError (UnsupportedDataType col_type))
      | Some d \<Rightarrow> Inr \<lparr>name = col_name, data_type = d, is_primary_key = is_pk\<rparr>)"

text \<open>\<^verbatim>\<open>Table.__init__\<close>\<close>

definition Table_init :: "string \<Rightarrow> column list \<Rightarrow> string \<Rightarrow> error + table" where
  "Table_init tname cols pk =
     (let t = \<lparr>table_name = tname, columns = cols, primary_key = pk, rows = [], next_id = 1\<rparr>
      in if column_map t pk = None then Inl (ValueError (PrimaryKeyNotFound pk)) else Inr t)"

text \<open>
  \<^verbatim>\<open>Database.create_table\<close>: one column per pair, the first of them flagged as the
  primary key; names that repeat are not refused. An empty list of pairs ends in the
  \<^verbatim>\<open>IndexError\<close> of \<^verbatim>\<open>col_objects[0]\<close>.
\<close>

record database =
  tables :: "string \<rightharpoonup> table"

text \<open>\<^verbatim>\<open>Database.__init__\<close>\<close>

definition Database_init :: database where
  "Database_init = \<lparr>tables = Map.empty\<rparr>"

fun make_columns :: "(string \<times> string) list \<Rightarrow> column list \<Rightarrow> error + column list" where
  "make_columns [] col_objects = Inr col_objects"
| "make_columns ((col_name, col_type) # rest) col_objects =
     (case Column_init col_name col_type (length col_objects = 0) of
        Inl e \<Rightarrow> Inl e
      | Inr col \<Rightarrow> make_columns rest (col_objects @ [col]))"

definition Database_create_table ::
  "database \<Rightarrow> string \<Rightarrow> (string \<times> string) list \<Rightarrow> database \<times> (error + table)" where
  "Database_create_table db tname cols =
     (if tables db tname \<noteq> None then (db, Inl (ValueError (TableAlreadyExists tname)))
      else
        (case make_columns cols [] of
           Inl e \<Rightarrow> (db, Inl e)
         | Inr col_objects \<Rightarrow>
             (case col_objects of
                [] \<Rightarrow> (db, Inl IndexError)
              | col0 # others \<Rightarrow>
                  (case Table_init tname col_objects (name col0) of
                     Inl e \<Rightarrow> (db, Inl e)
                   | Inr t \<Rightarrow> (db\<lparr>tables := (tables db)(tname \<mapsto> t)\<rparr>, Inr t)))))"

text \<open>\<^verbatim>\<open>d[k] = v\<close>: an existing key keeps its place, a new key goes last.\<close>

fun dict_set :: "pydict \<Rightarrow> string \<Rightarrow> pyval \<Rightarrow> pydict" where
  "dict_set [] k v = [(k, v)]"
| "dict_set ((k', v') # d) k v = (if k' = k then (k, v) # d else (k', v') # dict_set d k v)"

text \<open>\<^verbatim>\<open>d.update(other)\<close>\<close>

definition dict_update :: "pydict \<Rightarrow> pydict \<Rightarrow> pydict" where
  "dict_update d other = foldl (\<lambda>acc (k, v). dict_set acc k v) d other"

subsection \<open>Type validation\<close>

fun Table_validate_types :: "table \<Rightarrow> pydict \<Rightarrow> error + unit" where
  "Table_validate_types t [] = Inr ()"
| "Table_validate_types t ((col_name, v) # rest) =
     (if v = PNone then Table_validate_types t rest
      else
        (case column_map t col_name of
           None \<Rightarrow> Table_validate_types t rest
         | Some col \<Rightarrow>
             (case data_type col of
                INTEGER \<Rightarrow>
                  if \<not> isinstance_int v
                  then Inl (ValueError (ExpectsType col_name INTEGER (type_name v)))
                  else Table_validate_types t rest
              | TEXT \<Rightarrow>
                  if \<not> isinstance_str v
                  then Inl (ValueError (ExpectsType col_name TEXT (type_name v)))
                  else Table_validate_types t rest
              | REAL \<Rightarrow>
                  if \<not> (isinstance_int v \<or> isinstance_float v)
                  then Inl (ValueError (ExpectsType col_name REAL (type_name v)))
                  else Table_validate_types t rest)))"

subsection \<open>insert\<close>

text \<open>The loop that fills the new row, column by column.\<close>

fun build_row :: "column list \<Rightarrow> pydict \<Rightarrow> int \<Rightarrow> pydict \<Rightarrow> pydict" where
  "build_row [] vals nid row = row"
| "build_row (col # cols) vals nid row =
     build_row cols vals nid
       (dict_set row (name col)
          (if is_primary_key col then
             (case map_of vals (name col) of None \<Rightarrow> PInt nid | Some v \<Rightarrow> v)
           else
             (case map_of vals (name col) of None \<Rightarrow> PNone | Some v \<Rightarrow> v)))"

text \<open>The scan of the stored rows for the new primary-key value.\<close>

fun pk_scan :: "string \<Rightarrow> pyval \<Rightarrow> pydict list \<Rightarrow> error + unit" where
  "pk_scan pk pk_val [] = Inr ()"
| "pk_scan pk pk_val (existing_row # rest) =
     (case map_of existing_row pk of
        None \<Rightarrow> Inl (KeyError pk)
      | Some v \<Rightarrow>
          if py_eq v pk_val then Inl (ValueError (PrimaryKeyViolation pk pk_val))
          else pk_scan pk pk_val rest)"

text \<open>
  The operations that mutate the table return the table after the call together with the
  value returned or the error raised: an exception does not undo what was written.
\<close>

definition Table_insert :: "table \<Rightarrow> pydict \<Rightarrow> table \<times> (error + pyval)" where
  "Table_insert t vals =
     (let row = build_row (columns t) vals (next_id t) [] in
      case Table_validate_types t row of
        Inl e \<Rightarrow> (t, Inl e)
      | Inr u \<Rightarrow>
          (case map_of row (primary_key t) of
             None \<Rightarrow> (t, Inl (KeyError (primary_key t)))
           | Some pk_val \<Rightarrow>
               (case pk_scan (primary_key t) pk_val (rows t) of
                  Inl e \<Rightarrow> (t, Inl e)
                | Inr u \<Rightarrow> (t\<lparr>rows := rows t @ [row], next_id := next_id t + 1\<rparr>, Inr pk_val))))"

subsection \<open>select\<close>

fun check_columns :: "table \<Rightarrow> string list \<Rightarrow> error + unit" where
  "check_columns t [] = Inr ()"
| "check_columns t (col # cols) =
     (case column_map t col of
        None \<Rightarrow> Inl (ValueError (ColumnDoesNotExist col))
      | Some c \<Rightarrow> check_columns t cols)"

text \<open>The list comprehension over the rows; an error of the predicate ends it.\<close>

fun filter_rows :: "pyhost \<Rightarrow> string \<Rightarrow> bool \<Rightarrow> pydict list \<Rightarrow> error + pydict list" where
  "filter_rows H where_clause keep [] = Inr []"
| "filter_rows H where_clause keep (row # rest) =
     (case Table_evaluate_where H row where_clause of
        Inl e \<Rightarrow> Inl e
      | Inr b \<Rightarrow>
          (case filter_rows H where_clause keep rest of
             Inl e \<Rightarrow> Inl e
           | Inr out \<Rightarrow> Inr (if b = keep then row # out else out)))"

text \<open>\<^verbatim>\<open>{col: row[col] for col in columns}\<close>\<close>

fun project_row :: "string list \<Rightarrow> pydict \<Rightarrow> pydict \<Rightarrow> error + pydict" where
  "project_row [] row acc = Inr acc"
| "project_row (col # cols) row acc =
     (case map_of row col of
        None \<Rightarrow> Inl (KeyError col)
      | Some v \<Rightarrow> project_row cols row (dict_set acc col v))"

fun project_rows :: "string list \<Rightarrow> pydict list \<Rightarrow> error + pydict list" where
  "project_rows cols [] = Inr []"
| "project_rows cols (row # rest) =
     (case project_row cols row [] of
        Inl e \<Rightarrow> Inl e
      | Inr r \<Rightarrow> (case project_rows cols rest of Inl e \<Rightarrow> Inl e | Inr out \<Rightarrow> Inr (r # out)))"

text \<open>\<^verbatim>\<open>if where_clause:\<close> is false for \<^verbatim>\<open>None\<close> and for the empty string.\<close>

definition Table_select ::
  "pyhost \<Rightarrow> table \<Rightarrow> string list option \<Rightarrow> string option \<Rightarrow> error + pydict list" where
  "Table_select H t cols where_clause =
     (let cols' = (case cols of None \<Rightarrow> map name (columns t) | Some cs \<Rightarrow> cs) in
      case check_columns t cols' of
        Inl e \<Rightarrow> Inl e
      | Inr u \<Rightarrow>
          (case (case where_clause of
                   None \<Rightarrow> Inr (rows t)
                 | Some w \<Rightarrow> if w = [] then Inr (rows t) else filter_rows H w True (rows t)) of
             Inl e \<Rightarrow> Inl e
           | Inr filtered_rows \<Rightarrow> project_rows cols' filtered_rows))"

subsection \<open>update\<close>

fun check_value_names :: "table \<Rightarrow> pydict \<Rightarrow> error + unit" where
  "check_value_names t [] = Inr ()"
| "check_value_names t ((col_name, v) # rest) =
     (case column_map t col_name of
        None \<Rightarrow> Inl (ValueError (ColumnDoesNotExist col_name))
      | Some c \<Rightarrow> check_value_names t rest)"

text \<open>
  The loop over the rows, each updated in place as soon as it matches: the rows after an
  error are as they were, the rows before it are as the loop left them.
\<close>

fun update_rows :: "pyhost \<Rightarrow> pydict \<Rightarrow> string option \<Rightarrow> pydict list \<Rightarrow> pydict list \<times> (error + int)" where
  "update_rows H vals where_clause [] = ([], Inr 0)"
| "update_rows H vals where_clause (row # rest) =
     (case (case where_clause of None \<Rightarrow> Inr True | Some w \<Rightarrow> Table_evaluate_where H row w) of
        Inl e \<Rightarrow> (row # rest, Inl e)
      | Inr b \<Rightarrow>
          (let row' = (if b then dict_update row vals else row);
               (rest', res) = update_rows H vals where_clause rest
           in (row' # rest', case res of Inl e \<Rightarrow> Inl e | Inr n \<Rightarrow> Inr (if b then n + 1 else n))))"

definition Table_update :: "pyhost \<Rightarrow> table \<Rightarrow> pydict \<Rightarrow> string option \<Rightarrow> table \<times> (error + int)" where
  "Table_update H t vals where_clause =
     (case check_value_names t vals of
        Inl e \<Rightarrow> (t, Inl e)
      | Inr u \<Rightarrow>
          (case Table_validate_types t vals of
             Inl e \<Rightarrow> (t, Inl e)
           | Inr u \<Rightarrow>
               (let (rows', res) = update_rows H vals where_clause (rows t)
                in (t\<lparr>rows := rows'\<rparr>, res))))"

subsection \<open>delete\<close>

definition Table_delete :: "pyhost \<Rightarrow> table \<Rightarrow> string option \<Rightarrow> table \<times> (error + int)" where
  "Table_delete H t where_clause =
     (case where_clause of
        None \<Rightarrow> (t\<lparr>rows := []\<rparr>, Inr (int (length (rows t))))
      | Some w \<Rightarrow>
          (case filter_rows H w False (rows t) of
             Inl e \<Rightarrow> (t, Inl e)
           | Inr new_rows \<Rightarrow>
               (t\<lparr>rows := new_rows\<rparr>, Inr (int (length (rows t)) - int (length new_rows)))))"

section \<open>Properties: auxiliary definitions\<close>

subsection \<open>Well-formed tables\<close>

text \<open>
  The schema of a table as \<^verbatim>\<open>Database.create_table\<close> builds it from distinct column
  names: the names are distinct, and the column flagged as primary key is the one that
  \<^verbatim>\<open>primary_key\<close> names.
\<close>

definition schema_ok :: "table \<Rightarrow> bool" where
  "schema_ok t =
     (distinct (map name (columns t)) \<and>
      primary_key t \<in> set (map name (columns t)) \<and>
      (\<forall>col \<in> set (columns t). is_primary_key col = (name col = primary_key t)))"

text \<open>Every stored row has the declared columns as its keys, in declaration order.\<close>

definition rows_ok :: "table \<Rightarrow> bool" where
  "rows_ok t = (\<forall>row \<in> set (rows t). map fst row = map name (columns t))"

text \<open>
  The row of an insert in the words of the specification: for each declared column, in
  declaration order, the supplied value; without one, \<^verbatim>\<open>next_id\<close> for the primary key
  and \<^verbatim>\<open>None\<close> for any other column.
\<close>

definition new_row :: "table \<Rightarrow> pydict \<Rightarrow> pydict" where
  "new_row t vals =
     map (\<lambda>col. (name col,
                 case map_of vals (name col) of
                   Some v \<Rightarrow> v
                 | None \<Rightarrow> if name col = primary_key t then PInt (next_id t) else PNone))
         (columns t)"



subsection \<open>The specification's reading of types, operators and patterns\<close>


text \<open>
  The tokens that the evaluator searches for in a condition. A column name is plain when
  it is not empty and has no whitespace; a literal is plain when it is not empty, does not
  end in whitespace, and no token occurs in it after the space that precedes it.
\<close>

definition tokens :: "string list" where
  "tokens = ['' AND '', '' LIKE '', '' >= '', '' <= '', '' <> '', '' = '', '' > '', '' < '']"

definition plain_name :: "string \<Rightarrow> bool" where
  "plain_name col = (col \<noteq> [] \<and> (\<forall>c \<in> set col. c \<notin> set whitespace))"

definition plain_literal :: "string \<Rightarrow> bool" where
  "plain_literal lit =
     (lit \<noteq> [] \<and> last lit \<notin> set whitespace \<and>
      (\<forall>tok \<in> set tokens. \<not> str_contains tok (CHR 0x20 # lit)))"

text \<open>
  The order in which the specification lists the operators, and the literals that leave
  \<open>op\<close> the first operator of that order to occur set off by spaces: not empty, not
  ending in whitespace, and after the space that precedes the literal neither
  \<^verbatim>\<open>LIKE\<close> nor \<open>op\<close> nor an operator listed before \<open>op\<close>.
\<close>

definition spec_priority :: "string list" where
  "spec_priority = [''>='', ''<='', ''<>'', ''='', ''>'', ''<'']"

definition literal_ok :: "string \<Rightarrow> string \<Rightarrow> bool" where
  "literal_ok op lit =
     (lit \<noteq> [] \<and> last lit \<notin> set whitespace \<and>
      \<not> str_contains '' LIKE '' (CHR 0x20 # lit) \<and>
      (\<forall>q \<in> set (takeWhile (\<lambda>q. q \<noteq> op) spec_priority @ [op]).
          \<not> str_contains (CHR 0x20 # q @ '' '') (CHR 0x20 # lit)))"

text \<open>The chain of comparisons in the body of the operator loop, for one of the six.\<close>

definition cmp_result :: "string \<Rightarrow> pyval \<Rightarrow> pyval \<Rightarrow> error + bool" where
  "cmp_result op a b =
     (if op = ''='' then Inr (py_eq a b)
      else if op = ''>'' then py_gt a b
      else if op = ''<'' then py_lt a b
      else if op = ''>='' then py_ge a b
      else if op = ''<='' then py_le a b
      else Inr (\<not> py_eq a b))"

text \<open>
  What an operator means on an ordered type, given its strict order: on the integers and
  the rationals with \<open>(<)\<close>, on strings with \<^const>\<open>str_lt\<close>. Floats have the values that
  are unordered or equal without being the same (NaN, the two zeros), so there the
  operators are read from \<^const>\<open>float_lt\<close> and \<^const>\<open>float_eq\<close>.
\<close>

definition op_holds :: "string \<Rightarrow> ('a \<Rightarrow> 'a \<Rightarrow> bool) \<Rightarrow> 'a \<Rightarrow> 'a \<Rightarrow> bool" where
  "op_holds op lt a b =
     (if op = ''='' then a = b
      else if op = ''<>'' then a \<noteq> b
      else if op = ''<'' then lt a b
      else if op = ''>'' then lt b a
      else if op = ''<='' then lt a b \<or> a = b
      else lt b a \<or> a = b)"

definition float_op_holds :: "string \<Rightarrow> pyfloat \<Rightarrow> pyfloat \<Rightarrow> bool" where
  "float_op_holds op f g =
     (if op = ''='' then float_eq f g
      else if op = ''<>'' then \<not> float_eq f g
      else if op = ''<'' then float_lt f g
      else if op = ''>'' then float_lt g f
      else if op = ''<='' then float_lt f g \<or> float_eq f g
      else float_lt g f \<or> float_eq g f)"

text \<open>
  A LIKE pattern in the words of the specification: \<^verbatim>\<open>%\<close> matches any run of zero or
  more characters, \<^verbatim>\<open>_\<close> exactly one character, any other character itself, and the
  pattern must match the whole value.
\<close>

fun sql_like :: "string \<Rightarrow> string \<Rightarrow> bool" where
  "sql_like [] s = (s = [])"
| "sql_like (p # ps) [] = (p = CHR ''%'' \<and> sql_like ps [])"
| "sql_like (p # ps) (x # xs) =
     (if p = CHR ''%'' then sql_like ps (x # xs) \<or> sql_like (p # ps) xs
      else (p = CHR ''_'' \<or> p = x) \<and> sql_like ps xs)"

text \<open>The regex item that the conversion makes of one pattern character.\<close>

definition like_item :: "char \<Rightarrow> re_item" where
  "like_item c =
     (if c = CHR ''%'' then Star ReDot
      else if c = CHR ''_'' then Single ReDot
      else Single (ReChar c))"

subsection \<open>Example data\<close>

text \<open>
  A host for inputs without floats and with patterns inside the modelled regular
  expressions: on such inputs none of its fields is consulted.
\<close>

definition no_float_host :: pyhost where
  "no_float_host =
     \<lparr>float_of_str = (\<lambda>s. None), str_of_float = (\<lambda>f. ''nan''),
      re_match_other = (\<lambda>p s. Inl ReError)\<rparr>"

text \<open>
  The table of the specification's scenario,
  \<^verbatim>\<open>create_table("t", [("id","INTEGER"),("name","TEXT"),("age","INTEGER")])\<close>, with given
  rows and \<^verbatim>\<open>next_id\<close>.
\<close>

definition ex_columns :: "column list" where
  "ex_columns =
     [\<lparr>name = ''id'', data_type = INTEGER, is_primary_key = True\<rparr>,
      \<lparr>name = ''name'', data_type = TEXT, is_primary_key = False\<rparr>,
      \<lparr>name = ''age'', data_type = INTEGER, is_primary_key = False\<rparr>]"

definition ex_table :: "pydict list \<Rightarrow> int \<Rightarrow> table" where
  "ex_table rs n =
     \<lparr>table_name = ''t'', columns = ex_columns, primary_key = ''id'', rows = rs, next_id = n\<rparr>"

definition alice :: pydict where
  "alice = [(''id'', PInt 1), (''name'', PStr ''Alice''), (''age'', PInt 20)]"

definition bob :: pydict where
  "bob = [(''id'', PInt 2), (''name'', PStr ''Bob''), (''age'', PInt 17)]"

text \<open>A row inserted without an age, as \<^verbatim>\<open>insert({"name": "Carol"})\<close> stores it.\<close>

definition carol :: pydict where
  "carol = [(''id'', PInt 2), (''name'', PStr ''Carol''), (''age'', PNone)]"

definition dave :: pydict where
  "dave = [(''id'', PInt 3), (''name'', PStr ''Dave''), (''age'', PInt 30)]"

text \<open>
  A host for the two literals of the float examples: \<^verbatim>\<open>float("1.5")\<close> is 1.5 and
  \<^verbatim>\<open>float("abc")\<close> raises \<^verbatim>\<open>ValueError\<close>. It is consulted on no other string.
\<close>

definition ex_float_host :: pyhost where
  "ex_float_host =
     \<lparr>float_of_str = (\<lambda>s. if s = ''1.5'' then Some (FNum (3 / 2)) else None),
      str_of_float = (\<lambda>f. ''nan''),
      re_match_other = (\<lambda>p s. Inl ReError)\<rparr>"

text \<open>A row with a float and a bool.\<close>

definition price_row :: pydict where
  "price_row = [(''id'', PInt 1), (''price'', PFloat (FNum (5 / 2))), (''sold'', PBool True)]"

text \<open>
  The table that \<^verbatim>\<open>create_table("t", [("id", "integer"), ("id", "TEXT")])\<close> builds: the
  name of the first column repeats.
\<close>

definition dup_table :: table where
  "dup_table =
     \<lparr>table_name = ''t'',
      columns = [\<lparr>name = ''id'', data_type = INTEGER, is_primary_key = True\<rparr>,
                 \<lparr>name = ''id'', data_type = TEXT, is_primary_key = False\<rparr>],
      primary_key = ''id'', rows = [], next_id = 1\<rparr>"

section \<open>Properties: theorems\<close>

subsection \<open>Type validation\<close>






subsection \<open>delete\<close>

lemma filter_rows_ok:
  "\<forall>r \<in> set rs. \<not> isl (Table_evaluate_where H r w) \<Longrightarrow>
   filter_rows H w keep rs = Inr (filter (\<lambda>r. Table_evaluate_where H r w = Inr keep) rs)"
proof (induction rs)
  case Nil
  show ?case by simp
next
  case (Cons r rs)
  then obtain b where "Table_evaluate_where H r w = Inr b"
    by (cases "Table_evaluate_where H r w") auto
  with Cons show ?case by simp
qed

lemma filter_rows_raises:
  "\<exists>r \<in> set rs. isl (Table_evaluate_where H r w) \<Longrightarrow> isl (filter_rows H w keep rs)"
proof (induction rs)
  case Nil
  then show ?case by simp
next
  case (Cons r rs)
  show ?case
  proof (cases "isl (Table_evaluate_where H r w)")
    case True
    then show ?thesis by (cases "Table_evaluate_where H r w") auto
  next
    case False
    with Cons.prems have "\<exists>r \<in> set rs. isl (Table_evaluate_where H r w)" by auto
    from Cons.IH[OF this] show ?thesis
      by (cases "filter_rows H w keep rs"; cases "Table_evaluate_where H r w") auto
  qed
qed

lemma length_filter_partition:
  assumes "\<forall>r \<in> set rs. \<not> isl (f r)"
  shows "int (length rs) - int (length (filter (\<lambda>r. f r = Inr False) rs)) =
         int (length (filter (\<lambda>r. f r = (Inr True :: 'e + bool)) rs))"
proof -
  have "filter (\<lambda>r. f r = Inr False) rs = filter (\<lambda>r. \<not> (f r = Inr True)) rs"
  proof (rule filter_cong[OF refl])
    fix r assume "r \<in> set rs"
    with assms have "\<not> isl (f r)" by blast
    then show "(f r = Inr False) = (\<not> (f r = Inr True))"
      by (cases "f r") auto
  qed
  moreover have "length (filter (\<lambda>r. f r = Inr True) rs) + length (filter (\<lambda>r. \<not> (f r = Inr True)) rs) = length rs"
    by (rule sum_length_filter_compl)
  ultimately show ?thesis by simp
qed

text \<open>
  C7. Without a condition delete removes every row and returns the number of rows there
  were. With a condition that evaluates on every row, the rows left are the stored rows
  for which it is false, in their order (a \<^const>\<open>filter\<close> of the stored rows), and the
  number returned is the number of rows for which it is true. When the condition raises
  on some row the call raises and the table is as it was.
\<close>

theorem delete_removes_matching_rows:
  "Table_delete H t None = (t\<lparr>rows := []\<rparr>, Inr (int (length (rows t))))
   \<and> ((\<forall>r \<in> set (rows t). \<not> isl (Table_evaluate_where H r w)) \<longrightarrow>
        Table_delete H t (Some w) =
          (t\<lparr>rows := filter (\<lambda>r. Table_evaluate_where H r w = Inr False) (rows t)\<rparr>,
           Inr (int (length (filter (\<lambda>r. Table_evaluate_where H r w = Inr True) (rows t))))))
   \<and> ((\<exists>r \<in> set (rows t). isl (Table_evaluate_where H r w)) \<longrightarrow>
        fst (Table_delete H t (Some w)) = t \<and> isl (snd (Table_delete H t (Some w))))"
proof (intro conjI impI)
  show "Table_delete H t None = (t\<lparr>rows := []\<rparr>, Inr (int (length (rows t))))"
    by (simp add: Table_delete_def)
next
  assume ok: "\<forall>r \<in> set (rows t). \<not> isl (Table_evaluate_where H r w)"
  show "Table_delete H t (Some w) =
          (t\<lparr>rows := filter (\<lambda>r. Table_evaluate_where H r w = Inr False) (rows t)\<rparr>,
           Inr (int (length (filter (\<lambda>r. Table_evaluate_where H r w = Inr True) (rows t)))))"
    using filter_rows_ok[OF ok, of False] length_filter_partition[OF ok]
    by (simp add: Table_delete_def)
next
  assume "\<exists>r \<in> set (rows t). isl (Table_evaluate_where H r w)"
  then have "isl (filter_rows H w False (rows t))" by (rule filter_rows_raises)
  then show "fst (Table_delete H t (Some w)) = t" "isl (snd (Table_delete H t (Some w)))"
    by (auto simp: Table_delete_def split: sum.splits)
qed

theorem delete_removes_matching_rows_witness:
  "Table_delete no_float_host (ex_table [alice, bob] 3) (Some ''age < 18'') = (ex_table [alice] 3, Inr 1)
   \<and> Table_delete no_float_host (ex_table [alice, bob] 3) None = (ex_table [] 3, Inr 2)
   \<and> Table_delete no_float_host (ex_table [alice, carol] 3) (Some ''age < 18'') =
       (ex_table [alice, carol] 3, Inl TypeError)"
proof -
  let ?t = "ex_table [alice, bob] 3" and ?u = "ex_table [alice, carol] 3"
  have ok: "\<forall>r \<in> set (rows ?t). \<not> isl (Table_evaluate_where no_float_host r ''age < 18'')"
    by code_simp
  have f: "filter (\<lambda>r. Table_evaluate_where no_float_host r ''age < 18'' = Inr False) (rows ?t) = [alice]"
    by code_simp
  have g: "int (length (filter (\<lambda>r. Table_evaluate_where no_float_host r ''age < 18'' = Inr True) (rows ?t))) = 1"
    by code_simp
  have bad: "\<exists>r \<in> set (rows ?u). isl (Table_evaluate_where no_float_host r ''age < 18'')"
    by code_simp
  have e: "snd (Table_delete no_float_host ?u (Some ''age < 18'')) = Inl TypeError"
    by code_simp
  note th = delete_removes_matching_rows
  from th[of no_float_host ?t "''age < 18''"] ok f g
  have 1: "Table_delete no_float_host ?t (Some ''age < 18'') = (ex_table [alice] 3, Inr 1)"
    by (simp add: ex_table_def)
  from th[of no_float_host ?t]
  have 2: "Table_delete no_float_host ?t None = (ex_table [] 3, Inr 2)"
    by (simp add: ex_table_def)
  from th[of no_float_host ?u "''age < 18''"] bad
  have "fst (Table_delete no_float_host ?u (Some ''age < 18'')) = ?u" by blast
  with e have 3: "Table_delete no_float_host ?u (Some ''age < 18'') = (?u, Inl TypeError)"
    by (simp add: prod_eq_iff)
  from 1 2 3 show ?thesis by blast
qed

subsection \<open>select without columns and condition\<close>

lemma dict_set_fresh: "k \<notin> fst ` set d \<Longrightarrow> dict_set d k v = d @ [(k, v)]"
  by (induction d) auto







subsection \<open>insert\<close>

lemma build_row_fresh:
  "distinct (map fst acc @ map name cols) \<Longrightarrow>
   build_row cols vals nid acc =
     acc @ map (\<lambda>col. (name col,
                   if is_primary_key col
                   then (case map_of vals (name col) of None \<Rightarrow> PInt nid | Some v \<Rightarrow> v)
                   else (case map_of vals (name col) of None \<Rightarrow> PNone | Some v \<Rightarrow> v))) cols"
proof (induction cols arbitrary: acc)
  case Nil
  show ?case by simp
next
  case (Cons col cols)
  from Cons.prems have fresh: "name col \<notin> fst ` set acc" by auto
  from Cons.prems have "distinct (map fst (acc @ [(name col, x)]) @ map name cols)" for x
    by auto
  from Cons.IH[OF this] show ?case
    by (simp add: dict_set_fresh[OF fresh])
qed

lemma build_row_new_row:
  assumes "schema_ok t"
  shows "build_row (columns t) vals (next_id t) [] = new_row t vals"
proof -
  from assms have d: "distinct (map fst ([] :: pydict) @ map name (columns t))"
    and pk: "\<forall>col \<in> set (columns t). is_primary_key col = (name col = primary_key t)"
    by (simp_all add: schema_ok_def)
  have "map (\<lambda>col. (name col,
                   if is_primary_key col
                   then (case map_of vals (name col) of None \<Rightarrow> PInt (next_id t) | Some v \<Rightarrow> v)
                   else (case map_of vals (name col) of None \<Rightarrow> PNone | Some v \<Rightarrow> v))) (columns t)
        = new_row t vals"
    unfolding new_row_def
    by (rule map_cong[OF refl]) (simp add: pk split: option.splits)
  with build_row_fresh[OF d, of vals "next_id t"] show ?thesis by simp
qed

lemma map_of_named:
  "distinct (map name cols) \<Longrightarrow> col \<in> set cols \<Longrightarrow>
   map_of (map (\<lambda>c. (name c, g c)) cols) (name col) = Some (g col)"
  by (induction cols) (auto simp: image_iff)

lemma map_of_unnamed:
  "k \<notin> name ` set cols \<Longrightarrow> map_of (map (\<lambda>c. (name c, g c)) cols) k = None"
  by (induction cols) auto

lemma new_row_keys: "map fst (new_row t vals) = map name (columns t)"
  by (simp add: new_row_def comp_def)

lemma new_row_pk:
  assumes "schema_ok t"
  shows "map_of (new_row t vals) (primary_key t) =
           Some (case map_of vals (primary_key t) of None \<Rightarrow> PInt (next_id t) | Some v \<Rightarrow> v)"
proof -
  from assms have "primary_key t \<in> name ` set (columns t)" by (simp add: schema_ok_def)
  then obtain col where c: "col \<in> set (columns t)" "name col = primary_key t"
    by (elim imageE) simp
  from assms have d: "distinct (map name (columns t))" by (simp add: schema_ok_def)
  from map_of_named[OF d c(1), of "\<lambda>col. case map_of vals (name col) of Some v \<Rightarrow> v
        | None \<Rightarrow> if name col = primary_key t then PInt (next_id t) else PNone"]
  show ?thesis by (simp add: new_row_def c(2) split: option.splits)
qed

lemma new_row_other:
  assumes "schema_ok t" "col \<in> set (columns t)" "name col \<noteq> primary_key t"
  shows "map_of (new_row t vals) (name col) =
           Some (case map_of vals (name col) of None \<Rightarrow> PNone | Some v \<Rightarrow> v)"
proof -
  from assms have d: "distinct (map name (columns t))" by (simp add: schema_ok_def)
  from map_of_named[OF d assms(2), of "\<lambda>col. case map_of vals (name col) of Some v \<Rightarrow> v
        | None \<Rightarrow> if name col = primary_key t then PInt (next_id t) else PNone"]
  show ?thesis by (simp add: new_row_def assms(3) split: option.splits)
qed

text \<open>
  C6, amended. In a table whose column names are distinct and whose flagged column is the
  one that \<^verbatim>\<open>primary_key\<close> names (\<^const>\<open>schema_ok\<close>: what \<^verbatim>\<open>create_table\<close> builds
  from distinct names), the row that insert builds is \<^const>\<open>new_row\<close>: a supplied value is
  stored, the primary key that is not supplied is \<^verbatim>\<open>next_id\<close>, any other column that is
  not supplied is \<^verbatim>\<open>None\<close>. A successful insert appends that row after the stored rows,
  adds one to \<^verbatim>\<open>next_id\<close> whether or not the key was supplied, and returns the
  primary-key value it stored. The insert succeeds when the row passes type validation and
  the scan finds no equal key.
\<close>

theorem insert_stores_row:
  assumes "schema_ok t"
  shows "(Table_insert t vals = (t', Inr pk) \<longrightarrow>
            rows t' = rows t @ [new_row t vals]
            \<and> next_id t' = next_id t + 1
            \<and> columns t' = columns t \<and> primary_key t' = primary_key t
            \<and> map_of (new_row t vals) (primary_key t) = Some pk
            \<and> pk = (case map_of vals (primary_key t) of None \<Rightarrow> PInt (next_id t) | Some v \<Rightarrow> v))
         \<and> (Table_validate_types t (new_row t vals) = Inr ()
              \<and> pk_scan (primary_key t)
                   (case map_of vals (primary_key t) of None \<Rightarrow> PInt (next_id t) | Some v \<Rightarrow> v)
                   (rows t) = Inr ()
            \<longrightarrow> snd (Table_insert t vals) =
                  Inr (case map_of vals (primary_key t) of None \<Rightarrow> PInt (next_id t) | Some v \<Rightarrow> v))
         \<and> (\<forall>col \<in> set (columns t).
               map_of (new_row t vals) (name col) =
                 Some (case map_of vals (name col) of
                         Some v \<Rightarrow> v
                       | None \<Rightarrow> if name col = primary_key t then PInt (next_id t) else PNone))"
proof (intro conjI impI ballI)
  assume "Table_insert t vals = (t', Inr pk)"
  then have "t' = t\<lparr>rows := rows t @ [new_row t vals], next_id := next_id t + 1\<rparr>
             \<and> map_of (new_row t vals) (primary_key t) = Some pk"
    by (auto simp: Table_insert_def build_row_new_row[OF assms] Let_def
             split: sum.splits option.splits)
  then show "rows t' = rows t @ [new_row t vals]" "next_id t' = next_id t + 1"
    "columns t' = columns t" "primary_key t' = primary_key t"
    "map_of (new_row t vals) (primary_key t) = Some pk"
    "pk = (case map_of vals (primary_key t) of None \<Rightarrow> PInt (next_id t) | Some v \<Rightarrow> v)"
    using new_row_pk[OF assms, of vals] by auto
next
  assume "Table_validate_types t (new_row t vals) = Inr ()
              \<and> pk_scan (primary_key t)
                   (case map_of vals (primary_key t) of None \<Rightarrow> PInt (next_id t) | Some v \<Rightarrow> v)
                   (rows t) = Inr ()"
  then show "snd (Table_insert t vals) =
                  Inr (case map_of vals (primary_key t) of None \<Rightarrow> PInt (next_id t) | Some v \<Rightarrow> v)"
    by (simp add: Table_insert_def build_row_new_row[OF assms] new_row_pk[OF assms])
next
  fix col assume c: "col \<in> set (columns t)"
  show "map_of (new_row t vals) (name col) =
                 Some (case map_of vals (name col) of
                         Some v \<Rightarrow> v
                       | None \<Rightarrow> if name col = primary_key t then PInt (next_id t) else PNone)"
  proof (cases "name col = primary_key t")
    case True
    then show ?thesis using new_row_pk[OF assms, of vals] by (simp split: option.splits)
  next
    case False
    then show ?thesis using new_row_other[OF assms c False, of vals] by (simp split: option.splits)
  qed
qed

theorem insert_stores_row_witness:
  "schema_ok (ex_table [] 1)
   \<and> Table_insert (ex_table [] 1) [(''name'', PStr ''Alice''), (''age'', PInt 20)] =
       (ex_table [alice] 2, Inr (PInt 1))
   \<and> rows (ex_table [alice] 2) =
       rows (ex_table [] 1) @ [new_row (ex_table [] 1) [(''name'', PStr ''Alice''), (''age'', PInt 20)]]
   \<and> next_id (ex_table [alice] 2) = next_id (ex_table [] 1) + 1
   \<and> Table_insert (ex_table [alice] 2) [(''id'', PInt 5)] =
       (ex_table [alice, [(''id'', PInt 5), (''name'', PNone), (''age'', PNone)]] 3, Inr (PInt 5))"
proof -
  have s: "schema_ok (ex_table [] 1)" by code_simp
  have i: "Table_insert (ex_table [] 1) [(''name'', PStr ''Alice''), (''age'', PInt 20)] =
       (ex_table [alice] 2, Inr (PInt 1))" by code_simp
  have j: "Table_insert (ex_table [alice] 2) [(''id'', PInt 5)] =
       (ex_table [alice, [(''id'', PInt 5), (''name'', PNone), (''age'', PNone)]] 3, Inr (PInt 5))"
    by code_simp
  from insert_stores_row[OF s, of "[(''name'', PStr ''Alice''), (''age'', PInt 20)]"
      "ex_table [alice] 2" "PInt 1"] i
  have "rows (ex_table [alice] 2) =
       rows (ex_table [] 1) @ [new_row (ex_table [] 1) [(''name'', PStr ''Alice''), (''age'', PInt 20)]]
   \<and> next_id (ex_table [alice] 2) = next_id (ex_table [] 1) + 1"
    by blast
  with s i j show ?thesis by blast
qed

text \<open>
  \<^verbatim>\<open>create_table\<close> with distinct column names builds an empty table with such a schema.
\<close>

lemma make_columns_rest:
  "acc \<noteq> [] \<Longrightarrow> make_columns cols acc = Inr out \<Longrightarrow>
   \<exists>new. out = acc @ new \<and> map name new = map fst cols \<and> (\<forall>c \<in> set new. \<not> is_primary_key c)"
proof (induction cols arbitrary: acc)
  case Nil
  then show ?case by simp
next
  case (Cons p cols)
  obtain n ty where p: "p = (n, ty)" by (cases p)
  from Cons.prems(2) obtain c where c: "Column_init n ty (length acc = 0) = Inr c"
    and m: "make_columns cols (acc @ [c]) = Inr out"
    by (auto simp: p split: sum.splits)
  from c Cons.prems(1) have nc: "name c = n" "\<not> is_primary_key c"
    by (auto simp: Column_init_def split: option.splits)
  from Cons.IH[OF _ m] obtain new where
    "out = (acc @ [c]) @ new" "map name new = map fst cols" "\<forall>c \<in> set new. \<not> is_primary_key c"
    by auto
  with nc show ?case by (intro exI[of _ "c # new"]) (simp add: p)
qed

lemma make_columns_first:
  assumes "make_columns ((n, ty) # cols) [] = Inr out"
  shows "\<exists>c new. out = c # new \<and> name c = n \<and> is_primary_key c
           \<and> map name new = map fst cols \<and> (\<forall>c \<in> set new. \<not> is_primary_key c)"
proof -
  from assms obtain c where c: "Column_init n ty True = Inr c"
    and m: "make_columns cols [c] = Inr out"
    by (auto split: sum.splits)
  from c have nc: "name c = n" "is_primary_key c"
    by (auto simp: Column_init_def split: option.splits)
  from make_columns_rest[OF _ m] obtain new where
    "out = [c] @ new" "map name new = map fst cols" "\<forall>c \<in> set new. \<not> is_primary_key c"
    by auto
  with nc show ?thesis by simp
qed

lemma create_table_schema_ok:
  assumes "distinct (map fst cols)"
    and "Database_create_table db tname cols = (db', Inr t)"
  shows "schema_ok t \<and> rows t = [] \<and> next_id t = 1 \<and> map name (columns t) = map fst cols
         \<and> tables db' tname = Some t"
proof -
  from assms(2) obtain out col0 others where
    m: "make_columns cols [] = Inr out" and o: "out = col0 # others"
    and ti: "Table_init tname out (name col0) = Inr t"
    and db': "db' = db\<lparr>tables := (tables db)(tname \<mapsto> t)\<rparr>"
    by (auto simp: Database_create_table_def split: if_splits sum.splits list.splits)
  from ti have t: "t = \<lparr>table_name = tname, columns = out, primary_key = name col0, rows = [], next_id = 1\<rparr>"
    by (auto simp: Table_init_def Let_def split: if_splits)
  from m o obtain n ty rest where cols: "cols = (n, ty) # rest"
    by (cases cols) auto
  from make_columns_first[OF m[unfolded cols]] o
  have c0: "name col0 = n" "is_primary_key col0"
    and others: "map name others = map fst rest" "\<forall>c \<in> set others. \<not> is_primary_key c"
    by auto
  from assms(1) cols have "n \<notin> set (map fst rest)" "distinct (map fst rest)" by auto
  then have d: "n \<notin> set (map name others)" "distinct (map name others)"
    by (simp_all add: others(1))
  from d(1) have fresh: "\<forall>c \<in> set others. name c \<noteq> n" by auto
  have "schema_ok t"
    unfolding schema_ok_def t o using c0 others(2) d fresh by auto
  moreover have "map name (columns t) = map fst cols"
    by (simp add: t o cols c0 others)
  ultimately show ?thesis by (simp add: t db')
qed

text \<open>
  C6, as stated, fails: \<^verbatim>\<open>create_table\<close> does not refuse a column name that repeats.
  After \<^verbatim>\<open>create_table("t", [("id", "integer"), ("id", "TEXT")])\<close> the second column,
  which is not flagged, writes \<^verbatim>\<open>None\<close> over the key that the first column has just
  generated: \<^verbatim>\<open>insert({})\<close> stores \<^verbatim>\<open>{"id": None}\<close> and returns \<^verbatim>\<open>None\<close>, not the
  \<^verbatim>\<open>next_id\<close> of the table, which is 1.
\<close>

theorem insert_repeated_column_name_counterexample:
  "snd (Database_create_table Database_init ''t'' [(''id'', ''integer''), (''id'', ''TEXT'')])
     = Inr dup_table
   \<and> map_of ([] :: pydict) (primary_key dup_table) = None
   \<and> next_id dup_table = 1
   \<and> Table_insert dup_table [] =
       (dup_table\<lparr>rows := [[(''id'', PNone)]], next_id := 2\<rparr>, Inr PNone)"
  by code_simp

subsection \<open>Primary keys\<close>






lemma insert_keeps_schema:
  "primary_key (fst (Table_insert t vals)) = primary_key t"
  "columns (fst (Table_insert t vals)) = columns t"
  by (auto simp: Table_insert_def Let_def split: sum.splits option.splits)

lemma insert_keeps_schema_ok:
  "schema_ok t \<Longrightarrow> schema_ok (fst (Table_insert t vals))"
  by (simp add: schema_ok_def insert_keeps_schema)






subsection \<open>Strings: containment and split\<close>

lemma str_contains_sublist: "str_contains sub s = sublist sub s"
  by (induction s) (simp_all add: sublist_Cons_right)

lemma str_contains_skip:
  "c \<notin> set a \<Longrightarrow> str_contains (c # tk) (a @ r) = str_contains (c # tk) r"
  by (induction a) auto

lemma str_contains_appendI: "str_contains sub s \<Longrightarrow> str_contains sub (s @ x)"
  unfolding str_contains_sublist sublist_def by (metis append.assoc)

lemma str_split_no_sep: "\<not> str_contains sep s \<Longrightarrow> str_split sep s = [s]"
  by (induction s) auto

lemma prefix_within:
  "length xs \<le> length ys \<Longrightarrow> prefix xs (ys @ zs) = prefix xs ys"
proof
  assume "prefix xs (ys @ zs)"
  moreover have "prefix ys (ys @ zs)" by simp
  moreover assume "length xs \<le> length ys"
  ultimately show "prefix xs ys" by (rule prefix_length_prefix)
next
  assume "prefix xs ys"
  then show "prefix xs (ys @ zs)" by (rule prefix_prefix)
qed

lemma str_split_first:
  assumes "sep \<noteq> []" and "\<not> str_contains sep (a @ butlast sep)"
  shows "str_split sep (a @ sep @ b) = a # str_split sep b"
  using assms(2)
proof (induction a)
  case Nil
  from assms(1) obtain c cs where sep: "sep = c # cs" by (cases sep) auto
  have "str_split sep ((c # cs) @ b) = [] # str_split sep (drop (length sep) ((c # cs) @ b))"
    using sep by simp
  then show ?case using sep by simp
next
  case (Cons x a)
  from Cons.prems have np: "\<not> prefix sep ((x # a) @ butlast sep)"
    and nc: "\<not> str_contains sep (a @ butlast sep)" by auto
  have len: "length sep \<le> length ((x # a) @ butlast sep)" by simp
  have "butlast sep @ [last sep] = sep"
    using assms(1) by (rule append_butlast_last_id)
  then have e: "(x # a) @ sep @ b = ((x # a) @ butlast sep) @ ([last sep] @ b)"
    by (metis append.assoc)
  have "prefix sep ((x # a) @ sep @ b) = prefix sep (((x # a) @ butlast sep) @ ([last sep] @ b))"
    by (simp only: e)
  also have "\<dots> = prefix sep ((x # a) @ butlast sep)"
    by (rule prefix_within[OF len])
  finally have "prefix sep ((x # a) @ sep @ b) = prefix sep ((x # a) @ butlast sep)" .
  with np have "\<not> prefix sep (x # a @ sep @ b)" by simp
  with Cons.IH[OF nc] show ?case by simp
qed

lemma strip_chars_id:
  "s \<noteq> [] \<Longrightarrow> hd s \<notin> set cs \<Longrightarrow> last s \<notin> set cs \<Longrightarrow> strip_chars cs s = s"
proof -
  assume a: "s \<noteq> []" "hd s \<notin> set cs" "last s \<notin> set cs"
  then have 1: "dropWhile (\<lambda>c. c \<in> set cs) s = s" by (cases s) auto
  from a have "rev s \<noteq> []" "hd (rev s) \<notin> set cs" by (simp_all add: hd_rev)
  then have 2: "dropWhile (\<lambda>c. c \<in> set cs) (rev s) = rev s" by (cases "rev s") auto
  show ?thesis by (simp add: strip_chars_def 1 2)
qed

lemma plain_name_strip: "plain_name col \<Longrightarrow> str_strip col = col"
  unfolding str_strip_def plain_name_def by (rule strip_chars_id) auto

lemma space_whitespace: "CHR 0x20 \<in> set whitespace"
  by (simp add: whitespace_def)

lemma plain_name_no_space: "plain_name col \<Longrightarrow> CHR 0x20 \<notin> set col"
  using space_whitespace by (auto simp: plain_name_def)

lemma shape_strip:
  assumes "plain_name col" "plain_literal lit"
  shows "str_strip (col @ CHR 0x20 # op @ CHR 0x20 # lit) = col @ CHR 0x20 # op @ CHR 0x20 # lit"
  unfolding str_strip_def
proof (rule strip_chars_id)
  show "col @ CHR 0x20 # op @ CHR 0x20 # lit \<noteq> []" by simp
  from assms(1) show "hd (col @ CHR 0x20 # op @ CHR 0x20 # lit) \<notin> set whitespace"
    by (cases col) (auto simp: plain_name_def)
  from assms(2) show "last (col @ CHR 0x20 # op @ CHR 0x20 # lit) \<notin> set whitespace"
    by (simp add: plain_literal_def)
qed

lemma shape_contains:
  assumes "plain_name col" "plain_literal lit" "op \<in> set comparison_ops" "tok \<in> set tokens"
  shows "str_contains tok (col @ CHR 0x20 # op @ CHR 0x20 # lit) \<longleftrightarrow> tok = CHR 0x20 # op @ '' ''"
proof -
  from assms(4) obtain tk where tk: "tok = CHR 0x20 # tk" by (auto simp: tokens_def)
  from assms(2,4) have nl: "\<not> str_contains tok (CHR 0x20 # lit)" by (simp add: plain_literal_def)
  have "str_contains tok (col @ CHR 0x20 # op @ CHR 0x20 # lit)
        = str_contains tok (CHR 0x20 # op @ CHR 0x20 # lit)"
    unfolding tk by (rule str_contains_skip[OF plain_name_no_space[OF assms(1)]])
  also have "\<dots> \<longleftrightarrow> tok = CHR 0x20 # op @ '' ''"
    using assms(3,4) nl unfolding comparison_ops_def tokens_def
    by (elim disjE | simp)+
  finally show ?thesis .
qed

subsection \<open>Comparison conditions\<close>

text \<open>
  \<^verbatim>\<open>int\<close> on some strings: whitespace and a sign around the digits, underscores between
  them; the separator 0x1C is whitespace for \<^verbatim>\<open>str.strip\<close> and not for \<^verbatim>\<open>int\<close>; more
  digits than the limit are refused.
\<close>

lemma int_of_str_examples:
  "int_of_str ''20'' = Some 20"
  "int_of_str '' 20 '' = Some 20"
  "int_of_str ''-007'' = Some (- 7)"
  "int_of_str ''+1_000'' = Some 1000"
  "int_of_str (CHR 0xA0 # ''20'') = Some 20"
  "int_of_str (CHR 0x1C # ''20'') = None"
  "str_strip (CHR 0x1C # ''20'') = ''20''"
  "int_of_str ''+ 5'' = None"
  "int_of_str ''1__0'' = None"
  "int_of_str ''abc'' = None"
  "int_of_str [] = None"
  by code_simp+

lemma int_of_str_digit_limit:
  assumes "strip_chars int_whitespace s = c # cs"
    and "int_max_str_digits < length (filter (\<lambda>c. c \<noteq> CHR ''_'') cs)"
  shows "int_of_str s = None"
  using assms by (auto simp: int_of_str_def limited_digits_def)

lemma op_token: "op \<in> set comparison_ops \<Longrightarrow> CHR 0x20 # op @ '' '' \<in> set tokens"
  unfolding comparison_ops_def tokens_def by auto

lemma shape_split:
  assumes "plain_name col" "plain_literal lit" "op \<in> set comparison_ops"
  shows "str_split (CHR 0x20 # op @ '' '') (col @ CHR 0x20 # op @ CHR 0x20 # lit) = [col, lit]"
proof -
  let ?sep = "CHR 0x20 # op @ '' ''"
  have b: "butlast ?sep = CHR 0x20 # op" by (simp add: butlast_append)
  have "\<not> sublist ?sep (CHR 0x20 # op)"
    using sublist_length_le[of ?sep "CHR 0x20 # op"] by auto
  then have "\<not> str_contains ?sep (col @ butlast ?sep)"
    unfolding b using str_contains_skip[OF plain_name_no_space[OF assms(1)], of "op @ '' ''" "CHR 0x20 # op"]
    by (simp add: str_contains_sublist)
  then have 1: "str_split ?sep (col @ ?sep @ lit) = col # str_split ?sep lit"
    by (intro str_split_first) simp_all
  from assms(2) op_token[OF assms(3)] have "\<not> str_contains ?sep (CHR 0x20 # lit)"
    unfolding plain_literal_def by blast
  then have "\<not> str_contains ?sep lit" by simp
  then have 2: "str_split ?sep lit = [lit]" by (rule str_split_no_sep)
  from 1 2 show ?thesis by simp
qed

lemma dispatch_cmp_result:
  assumes "op \<in> set comparison_ops"
  shows "(if op = ''='' then Inr (py_eq a b)
          else if op = ''>'' then py_gt a b
          else if op = ''<'' then py_lt a b
          else if op = ''>='' then py_ge a b
          else if op = ''<='' then py_le a b
          else if op = ''<>'' then Inr (\<not> py_eq a b)
          else rest) = cmp_result op a b"
  using assms unfolding comparison_ops_def cmp_result_def by auto

lemma compare_loop_shape:
  assumes "plain_name col" "plain_literal lit" "op \<in> set comparison_ops"
    and "op \<in> set ops" "set ops \<subseteq> set comparison_ops"
  shows "compare_loop H row (col @ CHR 0x20 # op @ CHR 0x20 # lit) ops =
           (case map_of row col of
              None \<Rightarrow> Inl (ValueError (ColumnDoesNotExist col))
            | Some v \<Rightarrow> cmp_result op v (compare_value H v (strip_quotes (str_strip lit))))"
  using assms(4,5)
proof (induction ops)
  case Nil
  then show ?case by simp
next
  case (Cons op' ops)
  from Cons.prems have op': "op' \<in> set comparison_ops" by simp
  have c: "str_contains (CHR 0x20 # op' @ '' '') (col @ CHR 0x20 # op @ CHR 0x20 # lit) \<longleftrightarrow> op' = op"
    using shape_contains[OF assms(1,2,3) op_token[OF op']] by simp
  show ?case
  proof (cases "op' = op")
    case True
    show ?thesis
      using c True shape_split[OF assms(1,2,3)] plain_name_strip[OF assms(1)]
        dispatch_cmp_result[OF assms(3)]
      by (simp add: Let_def split: option.splits)
  next
    case False
    with Cons.prems have "op \<in> set ops" "set ops \<subseteq> set comparison_ops" by auto
    from Cons.IH[OF this] c False show ?thesis by simp
  qed
qed

lemma evaluate_condition_shape:
  assumes "plain_name col" "plain_literal lit" "op \<in> set comparison_ops"
  shows "Table_evaluate_condition H row (col @ '' '' @ op @ '' '' @ lit) =
           (case map_of row col of
              None \<Rightarrow> Inl (ValueError (ColumnDoesNotExist col))
            | Some v \<Rightarrow> cmp_result op v (compare_value H v (strip_quotes (str_strip lit))))"
proof -
  have like: "'' LIKE '' \<in> set tokens" by (simp add: tokens_def)
  have "'' LIKE '' \<noteq> CHR 0x20 # op @ '' ''"
    using assms(3) unfolding comparison_ops_def by auto
  with shape_contains[OF assms like]
  have nl: "\<not> str_contains '' LIKE '' (col @ CHR 0x20 # op @ CHR 0x20 # lit)" by simp
  show ?thesis
    using nl shape_strip[OF assms(1,2), of op] compare_loop_shape[OF assms assms(3) subset_refl, of H row]
    by (simp add: Table_evaluate_condition_def)
qed

lemma evaluate_where_single:
  assumes "\<not> str_contains '' AND '' w"
  shows "Table_evaluate_where H row w = Table_evaluate_condition H row (str_strip w)"
proof -
  have "Table_evaluate_where H row w = all_conditions H row [str_strip w]"
    by (simp add: Table_evaluate_where_def str_split_no_sep[OF assms])
  also have "\<dots> = Table_evaluate_condition H row (str_strip w)"
    by (cases "Table_evaluate_condition H row (str_strip w)") auto
  finally show ?thesis .
qed

lemma evaluate_where_shape:
  assumes "plain_name col" "plain_literal lit" "op \<in> set comparison_ops"
  shows "Table_evaluate_where H row (col @ '' '' @ op @ '' '' @ lit) =
         Table_evaluate_condition H row (col @ '' '' @ op @ '' '' @ lit)"
proof -
  have a: "'' AND '' \<in> set tokens" by (simp add: tokens_def)
  have "'' AND '' \<noteq> CHR 0x20 # op @ '' ''"
    using assms(3) unfolding comparison_ops_def by auto
  with shape_contains[OF assms a]
  have "\<not> str_contains '' AND '' (col @ '' '' @ op @ '' '' @ lit)" by simp
  from evaluate_where_single[OF this] shape_strip[OF assms(1,2), of op] show ?thesis by simp
qed

text \<open>
  The same shape with a literal that may hold operators tried later: the loop takes the
  first operator of the list that occurs set off by spaces, so the literal is held to be
  free of \<open>op\<close> and of the operators before it only (\<^const>\<open>literal_ok\<close>).
\<close>

lemma comparison_ops_priority: "comparison_ops = spec_priority"
  by (simp add: comparison_ops_def spec_priority_def)

lemma shape_strip_gen:
  assumes "plain_name col" and "lit \<noteq> []" and "last lit \<notin> set whitespace"
  shows "str_strip (col @ CHR 0x20 # op @ CHR 0x20 # lit) = col @ CHR 0x20 # op @ CHR 0x20 # lit"
  unfolding str_strip_def
proof (rule strip_chars_id)
  show "col @ CHR 0x20 # op @ CHR 0x20 # lit \<noteq> []" by simp
  from assms(1) show "hd (col @ CHR 0x20 # op @ CHR 0x20 # lit) \<notin> set whitespace"
    by (cases col) (auto simp: plain_name_def)
  from assms(2,3) show "last (col @ CHR 0x20 # op @ CHR 0x20 # lit) \<notin> set whitespace"
    by simp
qed

lemma shape_contains_gen:
  assumes "plain_name col" and "CHR 0x20 \<notin> set op"
  shows "str_contains (CHR 0x20 # tk) (col @ CHR 0x20 # op @ CHR 0x20 # lit) \<longleftrightarrow>
           prefix (CHR 0x20 # tk) (CHR 0x20 # op @ CHR 0x20 # lit)
           \<or> str_contains (CHR 0x20 # tk) (CHR 0x20 # lit)"
proof -
  have "str_contains (CHR 0x20 # tk) (col @ CHR 0x20 # op @ CHR 0x20 # lit)
        = str_contains (CHR 0x20 # tk) (CHR 0x20 # op @ CHR 0x20 # lit)"
    by (rule str_contains_skip[OF plain_name_no_space[OF assms(1)]])
  also have "\<dots> \<longleftrightarrow> prefix (CHR 0x20 # tk) (CHR 0x20 # op @ CHR 0x20 # lit)
                 \<or> str_contains (CHR 0x20 # tk) (op @ CHR 0x20 # lit)"
    by simp
  also have "str_contains (CHR 0x20 # tk) (op @ CHR 0x20 # lit)
             = str_contains (CHR 0x20 # tk) (CHR 0x20 # lit)"
    by (rule str_contains_skip[OF assms(2)])
  finally show ?thesis .
qed

lemma delimited_prefix_eq:
  "c \<notin> set p1 \<Longrightarrow> c \<notin> set p2 \<Longrightarrow> prefix (p1 @ [c]) (p2 @ c # y) \<Longrightarrow> p1 = p2"
proof (induction p1 arbitrary: p2)
  case Nil
  then show ?case by (cases p2) auto
next
  case (Cons a p1)
  then show ?case by (cases p2) auto
qed

lemma shape_split_gen:
  assumes "plain_name col"
    and "\<not> str_contains (CHR 0x20 # op @ '' '') (CHR 0x20 # lit)"
  shows "str_split (CHR 0x20 # op @ '' '') (col @ CHR 0x20 # op @ CHR 0x20 # lit) = [col, lit]"
proof -
  let ?sep = "CHR 0x20 # op @ '' ''"
  have b: "butlast ?sep = CHR 0x20 # op" by (simp add: butlast_append)
  have "\<not> sublist ?sep (CHR 0x20 # op)"
    using sublist_length_le[of ?sep "CHR 0x20 # op"] by auto
  then have "\<not> str_contains ?sep (col @ butlast ?sep)"
    unfolding b using str_contains_skip[OF plain_name_no_space[OF assms(1)], of "op @ '' ''" "CHR 0x20 # op"]
    by (simp add: str_contains_sublist)
  then have 1: "str_split ?sep (col @ ?sep @ lit) = col # str_split ?sep lit"
    by (intro str_split_first) simp_all
  from assms(2) have "\<not> str_contains ?sep lit" by simp
  then have 2: "str_split ?sep lit = [lit]" by (rule str_split_no_sep)
  from 1 2 show ?thesis by simp
qed

lemma compare_loop_priority:
  assumes "plain_name col" and "CHR 0x20 \<notin> set op" and "op \<in> set comparison_ops"
    and "\<not> str_contains (CHR 0x20 # op @ '' '') (CHR 0x20 # lit)"
    and "\<forall>q \<in> set before. q \<noteq> op \<and> CHR 0x20 \<notin> set q
           \<and> \<not> str_contains (CHR 0x20 # q @ '' '') (CHR 0x20 # lit)"
  shows "compare_loop H row (col @ CHR 0x20 # op @ CHR 0x20 # lit) (before @ op # rest) =
           (case map_of row col of
              None \<Rightarrow> Inl (ValueError (ColumnDoesNotExist col))
            | Some v \<Rightarrow> cmp_result op v (compare_value H v (strip_quotes (str_strip lit))))"
  using assms(5)
proof (induction before)
  case Nil
  have c: "str_contains (CHR 0x20 # op @ '' '') (col @ CHR 0x20 # op @ CHR 0x20 # lit)"
    unfolding shape_contains_gen[OF assms(1,2)] by simp
  show ?case
    using c shape_split_gen[OF assms(1,4)] plain_name_strip[OF assms(1)]
      dispatch_cmp_result[OF assms(3)]
    by (simp add: Let_def split: option.splits)
next
  case (Cons q before)
  then have q: "q \<noteq> op" "CHR 0x20 \<notin> set q"
    "\<not> str_contains (CHR 0x20 # q @ '' '') (CHR 0x20 # lit)" by simp_all
  have "\<not> prefix (q @ '' '') (op @ CHR 0x20 # lit)"
    using delimited_prefix_eq[OF q(2) assms(2), of lit] q(1) by auto
  then have "\<not> str_contains (CHR 0x20 # q @ '' '') (col @ CHR 0x20 # op @ CHR 0x20 # lit)"
    unfolding shape_contains_gen[OF assms(1,2)] using q(3) by simp
  with Cons show ?case by simp
qed

lemma evaluate_condition_priority:
  assumes "plain_name col" and "literal_ok op lit" and "op \<in> set spec_priority"
  shows "Table_evaluate_condition H row (col @ '' '' @ op @ '' '' @ lit) =
           (case map_of row col of
              None \<Rightarrow> Inl (ValueError (ColumnDoesNotExist col))
            | Some v \<Rightarrow> cmp_result op v (compare_value H v (strip_quotes (str_strip lit))))"
proof -
  let ?c = "col @ CHR 0x20 # op @ CHR 0x20 # lit"
  let ?before = "takeWhile (\<lambda>q. q \<noteq> op) spec_priority"
  from assms(3) have sp: "CHR 0x20 \<notin> set op" by (auto simp: spec_priority_def)
  from assms(3) have opc: "op \<in> set comparison_ops" by (simp add: comparison_ops_priority)
  from assms(2) have l: "lit \<noteq> []" "last lit \<notin> set whitespace"
    and nlike: "\<not> str_contains '' LIKE '' (CHR 0x20 # lit)"
    and own: "\<not> str_contains (CHR 0x20 # op @ '' '') (CHR 0x20 # lit)"
    and earlier: "\<forall>q \<in> set ?before. \<not> str_contains (CHR 0x20 # q @ '' '') (CHR 0x20 # lit)"
    by (simp_all add: literal_ok_def)
  have s: "str_strip ?c = ?c" by (rule shape_strip_gen[OF assms(1) l])
  have "\<not> prefix '' LIKE '' (CHR 0x20 # op @ CHR 0x20 # lit)"
    using assms(3) by (auto simp: spec_priority_def)
  with nlike have nl: "\<not> str_contains '' LIKE '' ?c"
    using shape_contains_gen[OF assms(1) sp, of "''LIKE ''" lit] by simp
  have b: "\<forall>q \<in> set ?before. q \<noteq> op \<and> CHR 0x20 \<notin> set q
           \<and> \<not> str_contains (CHR 0x20 # q @ '' '') (CHR 0x20 # lit)"
  proof
    fix q assume q: "q \<in> set ?before"
    then have "q \<in> set spec_priority" and "q \<noteq> op" by (auto dest: set_takeWhileD)
    then have "CHR 0x20 \<notin> set q" by (auto simp: spec_priority_def)
    with q earlier \<open>q \<noteq> op\<close>
    show "q \<noteq> op \<and> CHR 0x20 \<notin> set q \<and> \<not> str_contains (CHR 0x20 # q @ '' '') (CHR 0x20 # lit)"
      by blast
  qed
  from assms(3) have "dropWhile (\<lambda>q. q \<noteq> op) spec_priority \<noteq> []"
    by (auto simp: dropWhile_eq_Nil_conv)
  then obtain x rest where d: "dropWhile (\<lambda>q. q \<noteq> op) spec_priority = x # rest"
    by (cases "dropWhile (\<lambda>q. q \<noteq> op) spec_priority") auto
  from hd_dropWhile[of "\<lambda>q. q \<noteq> op" spec_priority] d have "x = op" by auto
  with d have split: "comparison_ops = ?before @ op # rest"
    using takeWhile_dropWhile_id[of "\<lambda>q. q \<noteq> op" spec_priority]
    by (simp add: comparison_ops_priority)
  have "compare_loop H row ?c comparison_ops =
           (case map_of row col of
              None \<Rightarrow> Inl (ValueError (ColumnDoesNotExist col))
            | Some v \<Rightarrow> cmp_result op v (compare_value H v (strip_quotes (str_strip lit))))"
    unfolding split by (rule compare_loop_priority[OF assms(1) sp opc own b])
  with nl s show ?thesis by (simp add: Table_evaluate_condition_def)
qed

lemma cmp_result_int:
  "op \<in> set comparison_ops \<Longrightarrow> cmp_result op (PInt i) (PInt j) = Inr (op_holds op (<) i j)"
  unfolding comparison_ops_def cmp_result_def op_holds_def
  by (auto simp: py_eq_def py_gt_def py_lt_def py_ge_def py_le_def py_order_def float_le_def)

lemma cmp_result_bool:
  "op \<in> set comparison_ops \<Longrightarrow>
   cmp_result op (PBool b) (PInt j) = Inr (op_holds op (<) (if b then 1 else 0) j)"
  unfolding comparison_ops_def cmp_result_def op_holds_def
  by (auto simp: py_eq_def py_gt_def py_lt_def py_ge_def py_le_def py_order_def float_le_def)

lemma cmp_result_float:
  "op \<in> set comparison_ops \<Longrightarrow>
   cmp_result op (PFloat f) (PFloat g) = Inr (float_op_holds op f g)"
  unfolding comparison_ops_def cmp_result_def float_op_holds_def
  by (auto simp: py_eq_def py_gt_def py_lt_def py_ge_def py_le_def py_order_def float_le_def)

lemma float_op_holds_finite:
  "op \<in> set comparison_ops \<Longrightarrow> float_op_holds op (FNum x) (FNum y) = op_holds op (<) x y"
  unfolding comparison_ops_def float_op_holds_def op_holds_def by auto

lemma cmp_result_str:
  "op \<in> set comparison_ops \<Longrightarrow> cmp_result op (PStr s) (PStr t) = Inr (op_holds op str_lt s t)"
  unfolding comparison_ops_def cmp_result_def op_holds_def
  by (auto simp: py_eq_def py_gt_def py_lt_def py_ge_def py_le_def py_order_def str_le_def)

lemma cmp_result_text_eq:
  "\<not> isinstance_str v \<Longrightarrow> cmp_result ''='' v (PStr t) = Inr False"
  "\<not> isinstance_str v \<Longrightarrow> cmp_result ''<>'' v (PStr t) = Inr True"
  by (cases v; simp add: cmp_result_def py_eq_def)+

lemma cmp_result_ordering:
  "op \<in> set [''>'', ''<'', ''>='', ''<=''] \<Longrightarrow>
   cmp_result op v w = Inl TypeError \<or> \<not> isl (cmp_result op v w)"
  by (auto simp: cmp_result_def py_gt_def py_lt_def py_ge_def py_le_def py_order_def
           split: option.splits pyval.splits)

lemma cmp_result_none:
  "op \<in> set [''>'', ''<'', ''>='', ''<=''] \<Longrightarrow> cmp_result op PNone (PStr t) = Inl TypeError"
  by (auto simp: cmp_result_def py_gt_def py_lt_def py_ge_def py_le_def py_order_def)

lemma cmp_result_text_ordering:
  "\<not> isinstance_str v \<Longrightarrow> op \<in> set [''>'', ''<'', ''>='', ''<=''] \<Longrightarrow>
   cmp_result op v (PStr t) = Inl TypeError"
  by (cases v) (auto simp: cmp_result_def py_gt_def py_lt_def py_ge_def py_le_def py_order_def)


lemma compare_value_cases:
  "compare_value H PNone s = PStr s"
  "compare_value H (PStr x) s = PStr s"
  "int_of_str s = Some j \<Longrightarrow> compare_value H (PInt i) s = PInt j"
  "int_of_str s = Some j \<Longrightarrow> compare_value H (PBool b) s = PInt j"
  "float_of_str H s = Some g \<Longrightarrow> compare_value H (PFloat f) s = PFloat g"
  "isinstance_int v \<Longrightarrow> int_of_str s = None \<Longrightarrow> compare_value H v s = PStr s"
  "isinstance_float v \<Longrightarrow> float_of_str H s = None \<Longrightarrow> compare_value H v s = PStr s"
  by (cases v; simp add: compare_value_def)+

text \<open>
  C4, amended. The condition is \<^verbatim>\<open>col op literal\<close> with single spaces, \<open>op\<close> one of
  \<^verbatim>\<open>>=\<close>, \<^verbatim>\<open><=\<close>, \<^verbatim>\<open><>\<close>, \<^verbatim>\<open>=\<close>, \<^verbatim>\<open>>\<close>, \<^verbatim>\<open><\<close>, and a column name without
  whitespace (\<^const>\<open>plain_name\<close>). The operators are tried in that order, and the
  condition is split at the first of them that occurs set off by spaces: \<open>op\<close> is the
  operator applied whenever the literal ends in no whitespace and holds, set off by spaces,
  neither \<^verbatim>\<open>LIKE\<close> nor \<open>op\<close> nor an operator that comes before \<open>op\<close> in the order; it
  may hold the operators that come after \<open>op\<close> (\<^const>\<open>literal_ok\<close>). The literal is
  stripped of whitespace and quotes. If the row's value is an int (or a bool, which counts
  as 1 or 0) and the literal parses as an int, the two ints are compared in the order of
  the integers; if it is a float and the literal parses as a float, the two floats are
  compared numerically; if it is a string, it is compared with the literal
  lexicographically. If the parse fails, or the row's value is \<^verbatim>\<open>None\<close>, the literal
  stays text and the row's value is not converted: \<^verbatim>\<open>=\<close> is then false, \<^verbatim>\<open><>\<close> true,
  and each of \<^verbatim>\<open>>\<close>, \<^verbatim>\<open><\<close>, \<^verbatim>\<open>>=\<close>, \<^verbatim>\<open><=\<close> raises \<^verbatim>\<open>TypeError\<close>.
\<close>

theorem comparison_condition_semantics:
  assumes "plain_name col" and "literal_ok op lit" and "op \<in> set spec_priority"
    and "map_of row col = Some v"
  shows
    "(\<forall>i j. v = PInt i \<and> int_of_str (strip_quotes (str_strip lit)) = Some j \<longrightarrow>
        Table_evaluate_condition H row (col @ '' '' @ op @ '' '' @ lit) = Inr (op_holds op (<) i j))
     \<and> (\<forall>b j. v = PBool b \<and> int_of_str (strip_quotes (str_strip lit)) = Some j \<longrightarrow>
        Table_evaluate_condition H row (col @ '' '' @ op @ '' '' @ lit) =
          Inr (op_holds op (<) (if b then 1 else 0) j))
     \<and> (\<forall>f g. v = PFloat f \<and> float_of_str H (strip_quotes (str_strip lit)) = Some g \<longrightarrow>
        Table_evaluate_condition H row (col @ '' '' @ op @ '' '' @ lit) = Inr (float_op_holds op f g))
     \<and> (\<forall>x y. v = PFloat (FNum x) \<and> float_of_str H (strip_quotes (str_strip lit)) = Some (FNum y) \<longrightarrow>
        Table_evaluate_condition H row (col @ '' '' @ op @ '' '' @ lit) = Inr (op_holds op (<) x y))
     \<and> (\<forall>s. v = PStr s \<longrightarrow>
        Table_evaluate_condition H row (col @ '' '' @ op @ '' '' @ lit) =
          Inr (op_holds op str_lt s (strip_quotes (str_strip lit))))
     \<and> (v = PNone
          \<or> (isinstance_int v \<and> int_of_str (strip_quotes (str_strip lit)) = None)
          \<or> (isinstance_float v \<and> float_of_str H (strip_quotes (str_strip lit)) = None) \<longrightarrow>
        (op = ''='' \<longrightarrow>
           Table_evaluate_condition H row (col @ '' '' @ op @ '' '' @ lit) = Inr False)
        \<and> (op = ''<>'' \<longrightarrow>
           Table_evaluate_condition H row (col @ '' '' @ op @ '' '' @ lit) = Inr True)
        \<and> (op \<in> set [''>'', ''<'', ''>='', ''<=''] \<longrightarrow>
           Table_evaluate_condition H row (col @ '' '' @ op @ '' '' @ lit) = Inl TypeError))"
proof -
  let ?lit = "strip_quotes (str_strip lit)"
  from assms(3) have opc: "op \<in> set comparison_ops" by (simp add: comparison_ops_priority)
  have e: "Table_evaluate_condition H row (col @ '' '' @ op @ '' '' @ lit) =
             cmp_result op v (compare_value H v ?lit)"
    using evaluate_condition_priority[OF assms(1,2,3), of H row] assms(4) by simp
  have 1: "\<forall>i j. v = PInt i \<and> int_of_str ?lit = Some j \<longrightarrow>
        Table_evaluate_condition H row (col @ '' '' @ op @ '' '' @ lit) = Inr (op_holds op (<) i j)"
    unfolding e by (simp add: compare_value_cases cmp_result_int[OF opc])
  have 2: "\<forall>b j. v = PBool b \<and> int_of_str ?lit = Some j \<longrightarrow>
        Table_evaluate_condition H row (col @ '' '' @ op @ '' '' @ lit) =
          Inr (op_holds op (<) (if b then 1 else 0) j)"
    unfolding e using cmp_result_bool[OF opc] by (auto simp: compare_value_cases)
  have 3: "\<forall>f g. v = PFloat f \<and> float_of_str H ?lit = Some g \<longrightarrow>
        Table_evaluate_condition H row (col @ '' '' @ op @ '' '' @ lit) = Inr (float_op_holds op f g)"
    unfolding e by (simp add: compare_value_cases cmp_result_float[OF opc])
  have 4: "\<forall>x y. v = PFloat (FNum x) \<and> float_of_str H ?lit = Some (FNum y) \<longrightarrow>
        Table_evaluate_condition H row (col @ '' '' @ op @ '' '' @ lit) = Inr (op_holds op (<) x y)"
    using 3 float_op_holds_finite[OF opc] by simp
  have 5: "\<forall>s. v = PStr s \<longrightarrow>
        Table_evaluate_condition H row (col @ '' '' @ op @ '' '' @ lit) =
          Inr (op_holds op str_lt s ?lit)"
    unfolding e by (simp add: compare_value_cases cmp_result_str[OF opc])
  have 6: "v = PNone
          \<or> (isinstance_int v \<and> int_of_str ?lit = None)
          \<or> (isinstance_float v \<and> float_of_str H ?lit = None) \<longrightarrow>
        (op = ''='' \<longrightarrow>
           Table_evaluate_condition H row (col @ '' '' @ op @ '' '' @ lit) = Inr False)
        \<and> (op = ''<>'' \<longrightarrow>
           Table_evaluate_condition H row (col @ '' '' @ op @ '' '' @ lit) = Inr True)
        \<and> (op \<in> set [''>'', ''<'', ''>='', ''<=''] \<longrightarrow>
           Table_evaluate_condition H row (col @ '' '' @ op @ '' '' @ lit) = Inl TypeError)"
  proof (intro impI)
    assume a: "v = PNone
          \<or> (isinstance_int v \<and> int_of_str ?lit = None)
          \<or> (isinstance_float v \<and> float_of_str H ?lit = None)"
    then have cv: "compare_value H v ?lit = PStr ?lit"
      by (auto simp: compare_value_cases)
    from a have ns: "\<not> isinstance_str v" by (cases v) auto
    show "(op = ''='' \<longrightarrow>
           Table_evaluate_condition H row (col @ '' '' @ op @ '' '' @ lit) = Inr False)
        \<and> (op = ''<>'' \<longrightarrow>
           Table_evaluate_condition H row (col @ '' '' @ op @ '' '' @ lit) = Inr True)
        \<and> (op \<in> set [''>'', ''<'', ''>='', ''<=''] \<longrightarrow>
           Table_evaluate_condition H row (col @ '' '' @ op @ '' '' @ lit) = Inl TypeError)"
      unfolding e cv using cmp_result_text_eq[OF ns, of ?lit] cmp_result_text_ordering[OF ns, of op ?lit]
      by blast
  qed
  from 1 2 3 4 5 6 show ?thesis by blast
qed

theorem comparison_condition_semantics_witness:
  "plain_name ''age'' \<and> literal_ok ''>='' ''18'' \<and> ''>='' \<in> set spec_priority
   \<and> map_of alice ''age'' = Some (PInt 20)
   \<and> Table_evaluate_condition no_float_host alice ''age >= 18'' = Inr True
   \<and> Table_evaluate_condition no_float_host alice (''name > '' @ [CHR 0x27] @ ''Al'' @ [CHR 0x27]) = Inr True
   \<and> Table_evaluate_condition no_float_host alice ''age = abc'' = Inr False
   \<and> Table_evaluate_condition no_float_host alice ''age >= abc'' = Inl TypeError
   \<and> Table_evaluate_condition no_float_host alice (''age = '' @ [CHR 0x27, CHR 0x1C] @ ''20'' @ [CHR 0x27]) = Inr False
   \<and> Table_evaluate_condition no_float_host alice (''age = '' @ [CHR 0x27, CHR 0x20] @ ''20'' @ [CHR 0x27]) = Inr True
   \<and> Table_evaluate_condition no_float_host alice ''name <> a = b'' = Inr True
   \<and> Table_evaluate_condition no_float_host alice ''name = a > b'' = Inr False
   \<and> Table_evaluate_condition no_float_host alice ''name >= A <= b'' = Inr True
   \<and> Table_evaluate_condition no_float_host alice ''name <= B <> b'' = Inr True
   \<and> Table_evaluate_condition no_float_host alice ''name > A < b'' = Inr True
   \<and> Table_evaluate_condition no_float_host carol ''age <> 18'' = Inr True
   \<and> Table_evaluate_condition ex_float_host price_row ''price > 1.5'' = Inr True
   \<and> Table_evaluate_condition ex_float_host price_row ''price = abc'' = Inr False
   \<and> Table_evaluate_condition ex_float_host price_row ''price <= abc'' = Inl TypeError
   \<and> Table_evaluate_condition ex_float_host price_row ''sold = 1'' = Inr True"
proof -
  have n: "plain_name ''age''" "plain_name ''name''" "plain_name ''price''" "plain_name ''sold''"
    by code_simp+
  have l: "literal_ok ''>='' ''18''" "literal_ok ''>'' ([CHR 0x27] @ ''Al'' @ [CHR 0x27])"
    "literal_ok ''='' ''abc''" "literal_ok ''>='' ''abc''"
    "literal_ok ''='' ([CHR 0x27, CHR 0x1C] @ ''20'' @ [CHR 0x27])"
    "literal_ok ''='' ([CHR 0x27, CHR 0x20] @ ''20'' @ [CHR 0x27])"
    "literal_ok ''<>'' ''a = b''" "literal_ok ''='' ''a > b''" "literal_ok ''>='' ''A <= b''"
    "literal_ok ''<='' ''B <> b''" "literal_ok ''>'' ''A < b''" "literal_ok ''<>'' ''18''"
    "literal_ok ''>'' ''1.5''" "literal_ok ''<='' ''abc''" "literal_ok ''='' ''1''"
    by code_simp+
  have o: "''>='' \<in> set spec_priority" "''<='' \<in> set spec_priority" "''<>'' \<in> set spec_priority"
    "''='' \<in> set spec_priority" "''>'' \<in> set spec_priority" "''<'' \<in> set spec_priority"
    by code_simp+
  have m: "map_of alice ''age'' = Some (PInt 20)" "map_of alice ''name'' = Some (PStr ''Alice'')"
    "map_of carol ''age'' = Some PNone"
    "map_of price_row ''price'' = Some (PFloat (FNum (5 / 2)))"
    "map_of price_row ''sold'' = Some (PBool True)"
    by code_simp+
  have p: "int_of_str (strip_quotes (str_strip ''18'')) = Some 18"
    "strip_quotes (str_strip ([CHR 0x27] @ ''Al'' @ [CHR 0x27])) = ''Al''"
    "int_of_str (strip_quotes (str_strip ''abc'')) = None"
    "int_of_str (strip_quotes (str_strip ([CHR 0x27, CHR 0x1C] @ ''20'' @ [CHR 0x27]))) = None"
    "int_of_str (strip_quotes (str_strip ([CHR 0x27, CHR 0x20] @ ''20'' @ [CHR 0x27]))) = Some 20"
    "strip_quotes (str_strip ''a = b'') = ''a = b''"
    "strip_quotes (str_strip ''a > b'') = ''a > b''"
    "strip_quotes (str_strip ''A <= b'') = ''A <= b''"
    "strip_quotes (str_strip ''B <> b'') = ''B <> b''"
    "strip_quotes (str_strip ''A < b'') = ''A < b''"
    "int_of_str (strip_quotes (str_strip ''1'')) = Some 1"
    by code_simp+
  have q: "float_of_str ex_float_host (strip_quotes (str_strip ''1.5'')) = Some (FNum (3 / 2))"
    "float_of_str ex_float_host (strip_quotes (str_strip ''abc'')) = None"
    by (simp_all add: ex_float_host_def str_strip_def strip_chars_def strip_quotes_def whitespace_def)
  have h: "op_holds ''>='' (<) (20 :: int) 18" "op_holds ''>'' str_lt ''Alice'' ''Al''"
    "op_holds ''='' (<) (20 :: int) 20"
    "op_holds ''<>'' str_lt ''Alice'' ''a = b''" "\<not> op_holds ''='' str_lt ''Alice'' ''a > b''"
    "op_holds ''>='' str_lt ''Alice'' ''A <= b''" "op_holds ''<='' str_lt ''Alice'' ''B <> b''"
    "op_holds ''>'' str_lt ''Alice'' ''A < b''"
    "op_holds ''='' (<) (1 :: int) 1"
    by code_simp+
  have "op_holds ''>'' (<) (5 / 2 :: rat) (3 / 2)"
    by (simp add: op_holds_def)
  then have hf: "float_op_holds ''>'' (FNum (5 / 2)) (FNum (3 / 2))"
    using float_op_holds_finite[of "''>''" "5 / 2" "3 / 2"] by (simp add: comparison_ops_def)
  from comparison_condition_semantics[OF n(1) l(1) o(1) m(1), of no_float_host] p(1) h(1)
  have 1: "Table_evaluate_condition no_float_host alice ''age >= 18'' = Inr True" by simp
  from comparison_condition_semantics[OF n(2) l(2) o(5) m(2), of no_float_host] p(2) h(2)
  have 2: "Table_evaluate_condition no_float_host alice (''name > '' @ [CHR 0x27] @ ''Al'' @ [CHR 0x27]) = Inr True"
    by simp
  from comparison_condition_semantics[OF n(1) l(3) o(4) m(1), of no_float_host] p(3)
  have 3: "Table_evaluate_condition no_float_host alice ''age = abc'' = Inr False" by simp
  from comparison_condition_semantics[OF n(1) l(4) o(1) m(1), of no_float_host] p(3)
  have 4: "Table_evaluate_condition no_float_host alice ''age >= abc'' = Inl TypeError" by simp
  from comparison_condition_semantics[OF n(1) l(5) o(4) m(1), of no_float_host] p(4)
  have 5: "Table_evaluate_condition no_float_host alice (''age = '' @ [CHR 0x27, CHR 0x1C] @ ''20'' @ [CHR 0x27]) = Inr False"
    by simp
  from comparison_condition_semantics[OF n(1) l(6) o(4) m(1), of no_float_host] p(5) h(3)
  have 6: "Table_evaluate_condition no_float_host alice (''age = '' @ [CHR 0x27, CHR 0x20] @ ''20'' @ [CHR 0x27]) = Inr True"
    by simp
  from comparison_condition_semantics[OF n(2) l(7) o(3) m(2), of no_float_host] p(6) h(4)
  have 7: "Table_evaluate_condition no_float_host alice ''name <> a = b'' = Inr True" by simp
  from comparison_condition_semantics[OF n(2) l(8) o(4) m(2), of no_float_host] p(7) h(5)
  have 8: "Table_evaluate_condition no_float_host alice ''name = a > b'' = Inr False" by simp
  from comparison_condition_semantics[OF n(2) l(9) o(1) m(2), of no_float_host] p(8) h(6)
  have 9: "Table_evaluate_condition no_float_host alice ''name >= A <= b'' = Inr True" by simp
  from comparison_condition_semantics[OF n(2) l(10) o(2) m(2), of no_float_host] p(9) h(7)
  have 10: "Table_evaluate_condition no_float_host alice ''name <= B <> b'' = Inr True" by simp
  from comparison_condition_semantics[OF n(2) l(11) o(5) m(2), of no_float_host] p(10) h(8)
  have 11: "Table_evaluate_condition no_float_host alice ''name > A < b'' = Inr True" by simp
  from comparison_condition_semantics[OF n(1) l(12) o(3) m(3), of no_float_host]
  have 12: "Table_evaluate_condition no_float_host carol ''age <> 18'' = Inr True" by simp
  from comparison_condition_semantics[OF n(3) l(13) o(5) m(4), of ex_float_host] q(1) hf
  have 13: "Table_evaluate_condition ex_float_host price_row ''price > 1.5'' = Inr True" by simp
  from comparison_condition_semantics[OF n(3) l(3) o(4) m(4), of ex_float_host] q(2)
  have 14: "Table_evaluate_condition ex_float_host price_row ''price = abc'' = Inr False" by simp
  from comparison_condition_semantics[OF n(3) l(14) o(2) m(4), of ex_float_host] q(2)
  have 15: "Table_evaluate_condition ex_float_host price_row ''price <= abc'' = Inl TypeError" by simp
  from comparison_condition_semantics[OF n(4) l(15) o(4) m(5), of ex_float_host] p(11) h(9)
  have 16: "Table_evaluate_condition ex_float_host price_row ''sold = 1'' = Inr True" by auto
  from n(1) l(1) o(1) m(1) 1 2 3 4 5 6 7 8 9 10 11 12 13 14 15 16 show ?thesis by blast
qed

text \<open>
  C4, as stated, fails: when the literal does not parse as the kind of the row's number,
  the two sides are not compared as raw text. The row keeps its number, the literal stays
  a string, and Python compares the two: for \<^verbatim>\<open>age > abc\<close> on a row with age 20 the
  comparison of the texts \<^verbatim>\<open>20\<close> and \<^verbatim>\<open>abc\<close> would be false, and the code raises
  \<^verbatim>\<open>TypeError\<close>.
\<close>

theorem unparsed_literal_not_compared_as_text_counterexample:
  "map_of alice ''age'' = Some (PInt 20)
   \<and> int_of_str ''abc'' = None
   \<and> op_holds ''>'' str_lt (str_of_int 20) ''abc'' = False
   \<and> Table_evaluate_condition no_float_host alice ''age > abc'' = Inl TypeError"
  by code_simp

subsection \<open>Ordering comparisons with null\<close>

lemma filter_rows_error:
  assumes "\<forall>r \<in> set rs. Table_evaluate_where H r w = Inl e \<or> \<not> isl (Table_evaluate_where H r w)"
    and "\<exists>r \<in> set rs. Table_evaluate_where H r w = Inl e"
  shows "filter_rows H w keep rs = Inl e"
  using assms
proof (induction rs)
  case Nil
  then show ?case by simp
next
  case (Cons r rs)
  show ?case
  proof (cases "Table_evaluate_where H r w")
    case (Inl e')
    with Cons.prems(1) have "e' = e" by auto
    with Inl show ?thesis by simp
  next
    case (Inr b)
    with Cons.prems have "\<exists>r \<in> set rs. Table_evaluate_where H r w = Inl e" by auto
    with Cons.IH Cons.prems(1) have "filter_rows H w keep rs = Inl e" by simp
    with Inr show ?thesis by simp
  qed
qed

lemma update_rows_error:
  assumes "\<forall>r \<in> set rs. Table_evaluate_where H r w = Inl e \<or> \<not> isl (Table_evaluate_where H r w)"
    and "\<exists>r \<in> set rs. Table_evaluate_where H r w = Inl e"
  shows "snd (update_rows H vals (Some w) rs) = Inl e"
  using assms
proof (induction rs)
  case Nil
  then show ?case by simp
next
  case (Cons r rs)
  show ?case
  proof (cases "Table_evaluate_where H r w")
    case (Inl e')
    with Cons.prems(1) have "e' = e" by auto
    with Inl show ?thesis by simp
  next
    case (Inr b)
    with Cons.prems have "\<exists>r \<in> set rs. Table_evaluate_where H r w = Inl e" by auto
    with Cons.IH Cons.prems(1) have "snd (update_rows H vals (Some w) rs) = Inl e" by simp
    with Inr show ?thesis by (auto simp: Let_def split: prod.splits)
  qed
qed

lemma null_ordering_row:
  assumes "plain_name col" "plain_literal lit" "op \<in> set [''>'', ''<'', ''>='', ''<='']"
  shows "map_of row col = Some PNone \<Longrightarrow>
           Table_evaluate_where H row (col @ '' '' @ op @ '' '' @ lit) = Inl TypeError"
    and "map_of row col \<noteq> None \<Longrightarrow>
           Table_evaluate_where H row (col @ '' '' @ op @ '' '' @ lit) = Inl TypeError
           \<or> \<not> isl (Table_evaluate_where H row (col @ '' '' @ op @ '' '' @ lit))"
proof -
  from assms(3) have op: "op \<in> set comparison_ops" by (auto simp: comparison_ops_def)
  note e = evaluate_where_shape[OF assms(1,2) op, of H row]
    evaluate_condition_shape[OF assms(1,2) op, of H row]
  show "map_of row col = Some PNone \<Longrightarrow>
           Table_evaluate_where H row (col @ '' '' @ op @ '' '' @ lit) = Inl TypeError"
    unfolding e using cmp_result_none[OF assms(3)] by (simp add: compare_value_cases)
  show "map_of row col \<noteq> None \<Longrightarrow>
           Table_evaluate_where H row (col @ '' '' @ op @ '' '' @ lit) = Inl TypeError
           \<or> \<not> isl (Table_evaluate_where H row (col @ '' '' @ op @ '' '' @ lit))"
    unfolding e using cmp_result_ordering[OF assms(3)] by (auto split: option.splits)
qed

lemma all_conditions_reach:
  assumes "\<forall>c \<in> set before. Table_evaluate_condition H row c = Inr True"
  shows "all_conditions H row (before @ cond # after) =
           (case Table_evaluate_condition H row cond of
              Inl e \<Rightarrow> Inl e
            | Inr b \<Rightarrow> if \<not> b then Inr False else all_conditions H row after)"
  using assms by (induction before) simp_all

lemma filter_rows_first_error:
  assumes "\<forall>r \<in> set pre. \<not> isl (Table_evaluate_where H r w)"
    and "Table_evaluate_where H row w = Inl e"
  shows "filter_rows H w keep (pre @ row # post) = Inl e"
  using assms(1)
proof (induction pre)
  case Nil
  from assms(2) show ?case by simp
next
  case (Cons r pre)
  then have "filter_rows H w keep (pre @ row # post) = Inl e" by simp
  moreover from Cons.prems obtain b where "Table_evaluate_where H r w = Inr b"
    by (cases "Table_evaluate_where H r w") auto
  ultimately show ?case by simp
qed

lemma update_rows_first_error:
  assumes "\<forall>r \<in> set pre. \<not> isl (Table_evaluate_where H r w)"
    and "Table_evaluate_where H row w = Inl e"
  shows "snd (update_rows H vals (Some w) (pre @ row # post)) = Inl e"
  using assms(1)
proof (induction pre)
  case Nil
  from assms(2) show ?case by simp
next
  case (Cons r pre)
  then have "snd (update_rows H vals (Some w) (pre @ row # post)) = Inl e" by simp
  moreover from Cons.prems obtain b where "Table_evaluate_where H r w = Inr b"
    by (cases "Table_evaluate_where H r w") auto
  ultimately show ?case by (auto simp: Let_def split: prod.splits)
qed

text \<open>
  C10. For a condition \<^verbatim>\<open>col op literal\<close> of the shape above with an ordering operator
  (\<^verbatim>\<open>>\<close>, \<^verbatim>\<open><\<close>, \<^verbatim>\<open>>=\<close>, \<^verbatim>\<open><=\<close>), on a row whose value for the column is
  \<^verbatim>\<open>None\<close> the evaluation returns no boolean: it raises \<^verbatim>\<open>TypeError\<close>, which is none of
  the \<^verbatim>\<open>ValueError\<close>s the engine raises itself. On rows that have the column the
  condition raises nothing else, so a select (with valid columns), a delete or an update
  (with valid values) under that condition ends with \<^verbatim>\<open>TypeError\<close> as soon as one stored
  row has \<^verbatim>\<open>None\<close> there. The same holds for any predicate \<open>w\<close> that performs the
  comparison on such a row: when the condition is one of the conjuncts of \<open>w\<close> and the
  conjuncts before it are true of the row, the predicate raises \<^verbatim>\<open>TypeError\<close> on the
  row, whatever the conjuncts after it are; and when the predicate raises nothing on the
  stored rows before that row, a select (with valid columns), a delete or an update (with
  valid values) under \<open>w\<close> ends with \<^verbatim>\<open>TypeError\<close>, and the delete leaves the table as
  it was.
\<close>

theorem null_ordering_comparison_raises:
  assumes "plain_name col" and "plain_literal lit" and "op \<in> set [''>'', ''<'', ''>='', ''<='']"
  shows
    "(map_of row col = Some PNone \<longrightarrow>
        Table_evaluate_condition H row (col @ '' '' @ op @ '' '' @ lit) = Inl TypeError)
     \<and> ((\<forall>r \<in> set (rows t). map_of r col \<noteq> None) \<and> (\<exists>r \<in> set (rows t). map_of r col = Some PNone) \<longrightarrow>
          (check_columns t (case cols of None \<Rightarrow> map name (columns t) | Some cs \<Rightarrow> cs) = Inr () \<longrightarrow>
             Table_select H t cols (Some (col @ '' '' @ op @ '' '' @ lit)) = Inl TypeError)
          \<and> Table_delete H t (Some (col @ '' '' @ op @ '' '' @ lit)) = (t, Inl TypeError)
          \<and> (check_value_names t vals = Inr () \<and> Table_validate_types t vals = Inr () \<longrightarrow>
               snd (Table_update H t vals (Some (col @ '' '' @ op @ '' '' @ lit))) = Inl TypeError))
     \<and> (map_of row col = Some PNone
          \<and> map str_strip (str_split '' AND '' w) = before @ (col @ '' '' @ op @ '' '' @ lit) # after
          \<and> (\<forall>c \<in> set before. Table_evaluate_condition H row c = Inr True) \<longrightarrow>
          Table_evaluate_where H row w = Inl TypeError
          \<and> (rows u = pre @ row # post \<and> (\<forall>r \<in> set pre. \<not> isl (Table_evaluate_where H r w)) \<longrightarrow>
               (check_columns u (case cols of None \<Rightarrow> map name (columns u) | Some cs \<Rightarrow> cs) = Inr () \<longrightarrow>
                  Table_select H u cols (Some w) = Inl TypeError)
               \<and> Table_delete H u (Some w) = (u, Inl TypeError)
               \<and> (check_value_names u vals = Inr () \<and> Table_validate_types u vals = Inr () \<longrightarrow>
                    snd (Table_update H u vals (Some w)) = Inl TypeError)))"
proof -
  let ?c = "col @ '' '' @ op @ '' '' @ lit"
  from assms(3) have op: "op \<in> set comparison_ops" by (auto simp: comparison_ops_def)
  have cond: "map_of row col = Some PNone \<Longrightarrow> Table_evaluate_condition H row ?c = Inl TypeError"
    using null_ordering_row(1)[OF assms, of row H] evaluate_where_shape[OF assms(1,2) op, of H row]
    by simp
  have single: "(\<forall>r \<in> set (rows t). map_of r col \<noteq> None) \<and> (\<exists>r \<in> set (rows t). map_of r col = Some PNone) \<longrightarrow>
          (check_columns t (case cols of None \<Rightarrow> map name (columns t) | Some cs \<Rightarrow> cs) = Inr () \<longrightarrow>
             Table_select H t cols (Some ?c) = Inl TypeError)
          \<and> Table_delete H t (Some ?c) = (t, Inl TypeError)
          \<and> (check_value_names t vals = Inr () \<and> Table_validate_types t vals = Inr () \<longrightarrow>
               snd (Table_update H t vals (Some ?c)) = Inl TypeError)"
  proof (intro conjI impI)
    assume a: "(\<forall>r \<in> set (rows t). map_of r col \<noteq> None) \<and> (\<exists>r \<in> set (rows t). map_of r col = Some PNone)"
    have 1: "\<forall>r \<in> set (rows t). Table_evaluate_where H r ?c = Inl TypeError
               \<or> \<not> isl (Table_evaluate_where H r ?c)"
      using a null_ordering_row(2)[OF assms] by blast
    have 2: "\<exists>r \<in> set (rows t). Table_evaluate_where H r ?c = Inl TypeError"
      using a null_ordering_row(1)[OF assms] by blast
    have ne: "?c \<noteq> []" by simp
    {
      assume "check_columns t (case cols of None \<Rightarrow> map name (columns t) | Some cs \<Rightarrow> cs) = Inr ()"
      then show "Table_select H t cols (Some ?c) = Inl TypeError"
        using filter_rows_error[OF 1 2, of True] ne by (simp add: Table_select_def)
    }
    show "Table_delete H t (Some ?c) = (t, Inl TypeError)"
      using filter_rows_error[OF 1 2, of False] by (simp add: Table_delete_def)
    {
      assume "check_value_names t vals = Inr () \<and> Table_validate_types t vals = Inr ()"
      then show "snd (Table_update H t vals (Some ?c)) = Inl TypeError"
        using update_rows_error[OF 1 2, of vals] by (auto simp: Table_update_def split: prod.splits)
    }
  qed
  have conj: "map_of row col = Some PNone
          \<and> map str_strip (str_split '' AND '' w) = before @ ?c # after
          \<and> (\<forall>c \<in> set before. Table_evaluate_condition H row c = Inr True) \<longrightarrow>
          Table_evaluate_where H row w = Inl TypeError
          \<and> (rows u = pre @ row # post \<and> (\<forall>r \<in> set pre. \<not> isl (Table_evaluate_where H r w)) \<longrightarrow>
               (check_columns u (case cols of None \<Rightarrow> map name (columns u) | Some cs \<Rightarrow> cs) = Inr () \<longrightarrow>
                  Table_select H u cols (Some w) = Inl TypeError)
               \<and> Table_delete H u (Some w) = (u, Inl TypeError)
               \<and> (check_value_names u vals = Inr () \<and> Table_validate_types u vals = Inr () \<longrightarrow>
                    snd (Table_update H u vals (Some w)) = Inl TypeError))"
  proof (intro impI, elim conjE)
    assume n: "map_of row col = Some PNone"
      and s: "map str_strip (str_split '' AND '' w) = before @ ?c # after"
      and b: "\<forall>c \<in> set before. Table_evaluate_condition H row c = Inr True"
    have w: "Table_evaluate_where H row w = Inl TypeError"
      unfolding Table_evaluate_where_def s all_conditions_reach[OF b] using cond[OF n] by simp
    have ne: "w \<noteq> []"
    proof
      assume "w = []"
      with s have "[[]] = before @ ?c # after" by (simp add: str_strip_def strip_chars_def)
      then show False by (cases before) auto
    qed
    have rows: "rows u = pre @ row # post \<and> (\<forall>r \<in> set pre. \<not> isl (Table_evaluate_where H r w)) \<longrightarrow>
               (check_columns u (case cols of None \<Rightarrow> map name (columns u) | Some cs \<Rightarrow> cs) = Inr () \<longrightarrow>
                  Table_select H u cols (Some w) = Inl TypeError)
               \<and> Table_delete H u (Some w) = (u, Inl TypeError)
               \<and> (check_value_names u vals = Inr () \<and> Table_validate_types u vals = Inr () \<longrightarrow>
                    snd (Table_update H u vals (Some w)) = Inl TypeError)"
    proof (intro conjI impI, elim conjE)
      assume r: "rows u = pre @ row # post"
        and p: "\<forall>r \<in> set pre. \<not> isl (Table_evaluate_where H r w)"
      assume "check_columns u (case cols of None \<Rightarrow> map name (columns u) | Some cs \<Rightarrow> cs) = Inr ()"
      then show "Table_select H u cols (Some w) = Inl TypeError"
        using filter_rows_first_error[OF p w, of True post] ne r by (simp add: Table_select_def)
    next
      assume "rows u = pre @ row # post \<and> (\<forall>r \<in> set pre. \<not> isl (Table_evaluate_where H r w))"
      then show "Table_delete H u (Some w) = (u, Inl TypeError)"
        using filter_rows_first_error[OF _ w, of pre False post] by (simp add: Table_delete_def)
    next
      assume "rows u = pre @ row # post \<and> (\<forall>r \<in> set pre. \<not> isl (Table_evaluate_where H r w))"
        and "check_value_names u vals = Inr () \<and> Table_validate_types u vals = Inr ()"
      then show "snd (Table_update H u vals (Some w)) = Inl TypeError"
        using update_rows_first_error[OF _ w, of pre vals post]
        by (auto simp: Table_update_def split: prod.splits)
    qed
    from w rows show "Table_evaluate_where H row w = Inl TypeError
          \<and> (rows u = pre @ row # post \<and> (\<forall>r \<in> set pre. \<not> isl (Table_evaluate_where H r w)) \<longrightarrow>
               (check_columns u (case cols of None \<Rightarrow> map name (columns u) | Some cs \<Rightarrow> cs) = Inr () \<longrightarrow>
                  Table_select H u cols (Some w) = Inl TypeError)
               \<and> Table_delete H u (Some w) = (u, Inl TypeError)
               \<and> (check_value_names u vals = Inr () \<and> Table_validate_types u vals = Inr () \<longrightarrow>
                    snd (Table_update H u vals (Some w)) = Inl TypeError))"
      by (rule conjI)
  qed
  from cond single conj show ?thesis by blast
qed

theorem null_ordering_comparison_raises_witness:
  "plain_name ''age'' \<and> plain_literal ''18'' \<and> ''>'' \<in> set [''>'', ''<'', ''>='', ''<='']
   \<and> map_of carol ''age'' = Some PNone
   \<and> Table_evaluate_condition no_float_host carol ''age > 18'' = Inl TypeError
   \<and> Table_select no_float_host (ex_table [alice, carol] 3) None (Some ''age > 18'') = Inl TypeError
   \<and> Table_delete no_float_host (ex_table [alice, carol] 3) (Some ''age > 18'') =
       (ex_table [alice, carol] 3, Inl TypeError)
   \<and> snd (Table_update no_float_host (ex_table [alice, carol] 3) [(''name'', PStr ''x'')] (Some ''age > 18''))
       = Inl TypeError
   \<and> map str_strip (str_split '' AND '' ''id = 2 AND age > 18 AND name = x'')
       = [''id = 2''] @ ''age > 18'' # [''name = x'']
   \<and> Table_evaluate_condition no_float_host carol ''id = 2'' = Inr True
   \<and> Table_evaluate_where no_float_host alice ''id = 2 AND age > 18 AND name = x'' = Inr False
   \<and> Table_evaluate_where no_float_host carol ''id = 2 AND age > 18 AND name = x'' = Inl TypeError
   \<and> Table_select no_float_host (ex_table [alice, carol, bob] 4) None
        (Some ''id = 2 AND age > 18 AND name = x'') = Inl TypeError
   \<and> Table_delete no_float_host (ex_table [alice, carol, bob] 4)
        (Some ''id = 2 AND age > 18 AND name = x'') = (ex_table [alice, carol, bob] 4, Inl TypeError)
   \<and> snd (Table_update no_float_host (ex_table [alice, carol, bob] 4) [(''name'', PStr ''x'')]
        (Some ''id = 2 AND age > 18 AND name = x'')) = Inl TypeError"
proof -
  let ?t = "ex_table [alice, carol] 3"
  let ?u = "ex_table [alice, carol, bob] 4"
  let ?w = "''id = 2 AND age > 18 AND name = x''"
  have n: "plain_name ''age''" by code_simp
  have l: "plain_literal ''18''" by code_simp
  have o: "''>'' \<in> set [''>'', ''<'', ''>='', ''<='']" by simp
  have m: "map_of carol ''age'' = Some PNone" by code_simp
  have r: "(\<forall>r \<in> set (rows ?t). map_of r ''age'' \<noteq> None) \<and> (\<exists>r \<in> set (rows ?t). map_of r ''age'' = Some PNone)"
    by code_simp
  have c: "check_columns ?t (case None of None \<Rightarrow> map name (columns ?t) | Some cs \<Rightarrow> cs) = Inr ()"
    by code_simp
  have v: "check_value_names ?t [(''name'', PStr ''x'')] = Inr ()
           \<and> Table_validate_types ?t [(''name'', PStr ''x'')] = Inr ()"
    by code_simp
  have s: "map str_strip (str_split '' AND '' ?w) = [''id = 2''] @ (''age'' @ '' '' @ ''>'' @ '' '' @ ''18'') # [''name = x'']"
    by code_simp
  have b: "\<forall>c \<in> set [''id = 2'']. Table_evaluate_condition no_float_host carol c = Inr True"
    by code_simp
  have ru: "rows ?u = [alice] @ carol # [bob]"
    by code_simp
  have p: "\<forall>r \<in> set [alice]. \<not> isl (Table_evaluate_where no_float_host r ?w)"
    by code_simp
  have a: "Table_evaluate_where no_float_host alice ?w = Inr False"
    by code_simp
  have cu: "check_columns ?u (case None of None \<Rightarrow> map name (columns ?u) | Some cs \<Rightarrow> cs) = Inr ()"
    by code_simp
  have vu: "check_value_names ?u [(''name'', PStr ''x'')] = Inr ()
           \<and> Table_validate_types ?u [(''name'', PStr ''x'')] = Inr ()"
    by code_simp
  from null_ordering_comparison_raises[OF n l o, where row = carol and H = no_float_host
      and t = ?t and cols = None and vals = "[(''name'', PStr ''x'')]" and w = ?w
      and before = "[''id = 2'']" and after = "[''name = x'']" and u = ?u
      and pre = "[alice]" and post = "[bob]"]
    m r c v s b ru p cu vu
  have "Table_evaluate_condition no_float_host carol ''age > 18'' = Inl TypeError
   \<and> Table_select no_float_host ?t None (Some ''age > 18'') = Inl TypeError
   \<and> Table_delete no_float_host ?t (Some ''age > 18'') = (?t, Inl TypeError)
   \<and> snd (Table_update no_float_host ?t [(''name'', PStr ''x'')] (Some ''age > 18'')) = Inl TypeError
   \<and> Table_evaluate_where no_float_host carol ?w = Inl TypeError
   \<and> Table_select no_float_host ?u None (Some ?w) = Inl TypeError
   \<and> Table_delete no_float_host ?u (Some ?w) = (?u, Inl TypeError)
   \<and> snd (Table_update no_float_host ?u [(''name'', PStr ''x'')] (Some ?w)) = Inl TypeError"
    by simp
  moreover have "Table_evaluate_condition no_float_host carol ''id = 2'' = Inr True"
    using b by simp
  moreover from s have "map str_strip (str_split '' AND '' ?w) = [''id = 2''] @ ''age > 18'' # [''name = x'']"
    by simp
  ultimately show ?thesis using n l o m a by blast
qed

subsection \<open>Conjunctions\<close>

lemma project_rows_map:
  "project_rows cols xs = Inr ys \<Longrightarrow>
   ys = map (\<lambda>r. case project_row cols r [] of Inr p \<Rightarrow> p | Inl e \<Rightarrow> []) xs"
  by (induction xs arbitrary: ys) (auto split: sum.splits)

lemma filter_rows_result:
  "filter_rows H w keep rs = Inr out \<Longrightarrow>
   out = filter (\<lambda>r. Table_evaluate_where H r w = Inr keep) rs"
  by (induction rs arbitrary: out) (auto split: sum.splits)

lemma subseq_filter_mono:
  assumes "\<forall>x \<in> set xs. P x \<longrightarrow> Q x"
  shows "subseq (filter P xs) (filter Q xs)"
proof -
  have "filter P (filter Q xs) = filter P xs"
    using assms by (auto intro: filter_cong)
  then show ?thesis using subseq_filter_left[of P "filter Q xs"] by simp
qed

lemma subseq_subset: "subseq xs ys \<Longrightarrow> set xs \<subseteq> set ys"
  by (induction rule: list_emb.induct) auto

lemma all_conditions_head:
  "all_conditions H row (c # cs) = Inr True \<Longrightarrow>
   Table_evaluate_condition H row c = Inr True \<and> all_conditions H row cs = Inr True"
  by (auto split: sum.splits if_splits)

lemma evaluate_where_conjunction:
  assumes "\<not> str_contains '' AND '' (c1 @ '' AND'')"
    and "Table_evaluate_where H row (c1 @ '' AND '' @ c2) = Inr True"
  shows "Table_evaluate_where H row c1 = Inr True \<and> Table_evaluate_where H row c2 = Inr True"
proof -
  have b: "butlast '' AND '' = '' AND''" by simp
  have "str_split '' AND '' (c1 @ '' AND '' @ c2) = c1 # str_split '' AND '' c2"
  proof (rule str_split_first)
    show "'' AND '' \<noteq> []" by simp
    show "\<not> str_contains '' AND '' (c1 @ butlast '' AND '')"
      unfolding b by (rule assms(1))
  qed
  with assms(2) have "all_conditions H row (str_strip c1 # map str_strip (str_split '' AND '' c2)) = Inr True"
    by (simp add: Table_evaluate_where_def)
  from all_conditions_head[OF this]
  have 1: "Table_evaluate_condition H row (str_strip c1) = Inr True"
    and 2: "Table_evaluate_where H row c2 = Inr True"
    by (simp_all add: Table_evaluate_where_def)
  from assms(1) have "\<not> str_contains '' AND '' c1"
    using str_contains_appendI by blast
  from evaluate_where_single[OF this] 1 2 show ?thesis by simp
qed

lemma select_monotone:
  assumes "w \<noteq> []"
    and "w' = [] \<or> (\<forall>r \<in> set (rows t). Table_evaluate_where H r w = Inr True \<longrightarrow>
                      Table_evaluate_where H r w' = Inr True)"
    and "Table_select H t cols (Some w) = Inr rs"
    and "Table_select H t cols (Some w') = Inr rs'"
  shows "subseq rs rs'"
proof -
  let ?cols = "case cols of None \<Rightarrow> map name (columns t) | Some cs \<Rightarrow> cs"
  let ?f = "\<lambda>r. case project_row ?cols r [] of Inr p \<Rightarrow> p | Inl e \<Rightarrow> []"
  from assms(1,3) obtain fr where fr: "filter_rows H w True (rows t) = Inr fr"
    and pr: "project_rows ?cols fr = Inr rs"
    by (auto simp: Table_select_def Let_def split: sum.splits)
  from assms(4) obtain fr' where fr': "(if w' = [] then Inr (rows t) else filter_rows H w' True (rows t)) = Inr fr'"
    and pr': "project_rows ?cols fr' = Inr rs'"
    by (auto simp: Table_select_def Let_def split: sum.splits if_splits)
  have f: "fr = filter (\<lambda>r. Table_evaluate_where H r w = Inr True) (rows t)"
    using fr by (rule filter_rows_result)
  have "subseq fr fr'"
  proof (cases "w' = []")
    case True
    with fr' have "fr' = rows t" by simp
    then show ?thesis by (simp add: f)
  next
    case False
    with fr' have "fr' = filter (\<lambda>r. Table_evaluate_where H r w' = Inr True) (rows t)"
      by (simp add: filter_rows_result)
    with False assms(2) show ?thesis
      unfolding f by (simp add: subseq_filter_mono)
  qed
  then have "subseq (map ?f fr) (map ?f fr')" by (rule subseq_map)
  with project_rows_map[OF pr] project_rows_map[OF pr'] show ?thesis by simp
qed

lemma project_row_total:
  "\<forall>c \<in> set cols. map_of row c \<noteq> None \<Longrightarrow> \<not> isl (project_row cols row acc)"
  by (induction cols arbitrary: acc) (auto split: option.splits)

lemma project_rows_total:
  "\<forall>row \<in> set xs. \<forall>c \<in> set cols. map_of row c \<noteq> None \<Longrightarrow> \<not> isl (project_rows cols xs)"
proof (induction xs)
  case Nil
  show ?case by simp
next
  case (Cons r xs)
  then have "\<not> isl (project_row cols r [])" by (simp add: project_row_total)
  with Cons show ?case by (auto split: sum.splits)
qed

lemma check_columns_declared:
  "check_columns t cols = Inr () \<Longrightarrow> set cols \<subseteq> name ` set (columns t)"
proof (induction cols)
  case Nil
  show ?case by simp
next
  case (Cons k cols)
  then obtain c where c: "column_map t k = Some c"
    by (cases "column_map t k") auto
  then have "k \<in> name ` set (columns t)"
    unfolding column_map_def by (auto dest!: map_of_SomeD)
  with Cons c show ?case by auto
qed

lemma rows_ok_has_columns:
  assumes "rows_ok t" and "row \<in> set (rows t)" and "c \<in> name ` set (columns t)"
  shows "map_of row c \<noteq> None"
proof -
  from assms(1,2) have "map fst row = map name (columns t)" by (simp add: rows_ok_def)
  then have "fst ` set row = name ` set (columns t)" by (metis list.set_map)
  with assms(3) show ?thesis by (simp add: map_of_eq_None_iff)
qed

lemma evaluate_where_first_conjunct:
  assumes "\<not> str_contains '' AND '' (c1 @ '' AND'')"
    and "\<not> isl (Table_evaluate_where H row (c1 @ '' AND '' @ c2))"
  shows "\<not> isl (Table_evaluate_where H row c1)"
proof -
  have b: "butlast '' AND '' = '' AND''" by simp
  have "str_split '' AND '' (c1 @ '' AND '' @ c2) = c1 # str_split '' AND '' c2"
  proof (rule str_split_first)
    show "'' AND '' \<noteq> []" by simp
    show "\<not> str_contains '' AND '' (c1 @ butlast '' AND '')"
      unfolding b by (rule assms(1))
  qed
  with assms(2) have "\<not> isl (all_conditions H row (str_strip c1 # map str_strip (str_split '' AND '' c2)))"
    by (simp add: Table_evaluate_where_def)
  then have 1: "\<not> isl (Table_evaluate_condition H row (str_strip c1))"
    by (cases "Table_evaluate_condition H row (str_strip c1)") auto
  from assms(1) have "\<not> str_contains '' AND '' c1"
    using str_contains_appendI by blast
  from evaluate_where_single[OF this] 1 show ?thesis by simp
qed

lemma select_first_conjunct_returns:
  assumes "\<not> str_contains '' AND '' (c1 @ '' AND'')"
    and "Table_select H t cols (Some (c1 @ '' AND '' @ c2)) = Inr rs"
    and "rows_ok t"
  shows "\<not> isl (Table_select H t cols (Some c1))"
proof -
  let ?cols = "case cols of None \<Rightarrow> map name (columns t) | Some cs \<Rightarrow> cs"
  have ne: "c1 @ '' AND '' @ c2 \<noteq> []" by simp
  from assms(2) ne obtain fr where cc: "check_columns t ?cols = Inr ()"
    and fr: "filter_rows H (c1 @ '' AND '' @ c2) True (rows t) = Inr fr"
    by (auto simp: Table_select_def Let_def split: sum.splits)
  have "\<not> (\<exists>r \<in> set (rows t). isl (Table_evaluate_where H r (c1 @ '' AND '' @ c2)))"
    using filter_rows_raises[of "rows t" H "c1 @ '' AND '' @ c2" True] fr by auto
  then have ok: "\<forall>r \<in> set (rows t). \<not> isl (Table_evaluate_where H r c1)"
    using evaluate_where_first_conjunct[OF assms(1)] by blast
  have all: "\<forall>row \<in> set (rows t). \<forall>c \<in> set ?cols. map_of row c \<noteq> None"
    using rows_ok_has_columns[OF assms(3)] check_columns_declared[OF cc] by blast
  have p: "\<not> isl (project_rows ?cols xs)" if "set xs \<subseteq> set (rows t)" for xs
    using that all by (intro project_rows_total) blast
  show ?thesis
  proof (cases "c1 = []")
    case True
    with cc p[of "rows t"] show ?thesis
      by (auto simp: Table_select_def Let_def split: sum.splits)
  next
    case False
    with cc filter_rows_ok[OF ok, of True]
      p[of "filter (\<lambda>r. Table_evaluate_where H r c1 = Inr True) (rows t)"]
    show ?thesis
      by (auto simp: Table_select_def Let_def split: sum.splits)
  qed
qed

text \<open>
  C8, amended. Let \<open>c1\<close> hold no separator \<^verbatim>\<open> AND \<close> and not end in \<^verbatim>\<open> AND\<close>, so that
  \<^verbatim>\<open>c1 AND c2\<close> is split after \<open>c1\<close>. Whenever \<^verbatim>\<open>select(cols, "c1 AND c2")\<close> returns
  rows, then the result of \<^verbatim>\<open>select(cols, "c1")\<close>, if that call returns, holds all of them,
  in the same order, and so does the result of \<^verbatim>\<open>select(cols, "c2")\<close>, if that call
  returns: where the calls return, removing a conjunct can only enlarge the result. The
  call with \<open>c1\<close> alone does return, in a table whose rows have the declared columns; the
  call with \<open>c2\<close> alone may raise.
\<close>

theorem select_conjunction_narrows:
  assumes "\<not> str_contains '' AND '' (c1 @ '' AND'')"
    and "Table_select H t cols (Some (c1 @ '' AND '' @ c2)) = Inr rs"
  shows "(\<forall>rs1. Table_select H t cols (Some c1) = Inr rs1 \<longrightarrow> subseq rs rs1 \<and> set rs \<subseteq> set rs1)
       \<and> (\<forall>rs2. Table_select H t cols (Some c2) = Inr rs2 \<longrightarrow> subseq rs rs2 \<and> set rs \<subseteq> set rs2)
       \<and> (rows_ok t \<longrightarrow> \<not> isl (Table_select H t cols (Some c1)))"
proof -
  have ne: "c1 @ '' AND '' @ c2 \<noteq> []" by simp
  have 1: "\<forall>r \<in> set (rows t). Table_evaluate_where H r (c1 @ '' AND '' @ c2) = Inr True \<longrightarrow>
             Table_evaluate_where H r c1 = Inr True"
    and 2: "\<forall>r \<in> set (rows t). Table_evaluate_where H r (c1 @ '' AND '' @ c2) = Inr True \<longrightarrow>
             Table_evaluate_where H r c2 = Inr True"
    using evaluate_where_conjunction[OF assms(1)] by blast+
  have "subseq rs rs1" if "Table_select H t cols (Some c1) = Inr rs1" for rs1
    using select_monotone[OF ne _ assms(2) that] 1 by blast
  moreover have "subseq rs rs2" if "Table_select H t cols (Some c2) = Inr rs2" for rs2
    using select_monotone[OF ne _ assms(2) that] 2 by blast
  moreover have "\<not> isl (Table_select H t cols (Some c1))" if "rows_ok t"
    using select_first_conjunct_returns[OF assms that] .
  ultimately show ?thesis using subseq_subset by blast
qed

theorem select_conjunction_narrows_witness:
  "\<not> str_contains '' AND '' (''age >= 18'' @ '' AND'')
   \<and> Table_select no_float_host (ex_table [alice, bob, dave] 4) None
         (Some (''age >= 18'' @ '' AND '' @ ''name LIKE A%'')) = Inr [alice]
   \<and> Table_select no_float_host (ex_table [alice, bob, dave] 4) None (Some ''age >= 18'') = Inr [alice, dave]
   \<and> Table_select no_float_host (ex_table [alice, bob, dave] 4) None (Some ''name LIKE A%'') = Inr [alice]
   \<and> subseq [alice] [alice, dave] \<and> set [alice] \<subseteq> set [alice, dave]
   \<and> rows_ok (ex_table [alice, bob, dave] 4)
   \<and> \<not> isl (Table_select no_float_host (ex_table [alice, bob, dave] 4) None (Some ''age >= 18''))"
proof -
  let ?t = "ex_table [alice, bob, dave] 4"
  have a: "\<not> str_contains '' AND '' (''age >= 18'' @ '' AND'')" by code_simp
  have s: "Table_select no_float_host ?t None (Some (''age >= 18'' @ '' AND '' @ ''name LIKE A%'')) = Inr [alice]"
    by code_simp
  have s1: "Table_select no_float_host ?t None (Some ''age >= 18'') = Inr [alice, dave]" by code_simp
  have s2: "Table_select no_float_host ?t None (Some ''name LIKE A%'') = Inr [alice]" by code_simp
  have r: "rows_ok ?t" by code_simp
  from select_conjunction_narrows[OF a s] s1 r
  have "subseq [alice] [alice, dave] \<and> set [alice] \<subseteq> set [alice, dave]
        \<and> \<not> isl (Table_select no_float_host ?t None (Some ''age >= 18''))" by blast
  with a s s1 s2 r show ?thesis by blast
qed

text \<open>
  C8, as stated, fails: the conjunction stops at the first false condition, so a row that
  fails \<open>c1\<close> never meets \<open>c2\<close>, while \<^verbatim>\<open>select(cols, "c2")\<close> evaluates \<open>c2\<close> on every
  row. With the rows of Alice (age 20) and Carol (age \<^verbatim>\<open>None\<close>), the conjunction
  \<^verbatim>\<open>id = 1 AND age > 18\<close> returns Alice's row, and \<^verbatim>\<open>age > 18\<close> alone returns nothing: it
  raises \<^verbatim>\<open>TypeError\<close> on Carol's row.
\<close>

theorem select_conjunct_alone_raises_counterexample:
  "Table_select no_float_host (ex_table [alice, carol] 3) None (Some ''id = 1 AND age > 18'') = Inr [alice]
   \<and> Table_select no_float_host (ex_table [alice, carol] 3) None (Some ''id = 1'') = Inr [alice]
   \<and> Table_select no_float_host (ex_table [alice, carol] 3) None (Some ''age > 18'') = Inl TypeError"
  by code_simp



subsection \<open>update\<close>

lemma check_value_names_ok_iff:
  "check_value_names t vals = Inr () \<longleftrightarrow> (\<forall>(c, v) \<in> set vals. column_map t c \<noteq> None)"
  by (induction vals) (auto split: option.splits)

lemma update_rows_error_prefix:
  "update_rows H vals (Some w) rs = (rs', Inl e) \<Longrightarrow>
   \<exists>k < length rs.
     Table_evaluate_where H (rs ! k) w = Inl e
     \<and> (\<forall>i < k. \<not> isl (Table_evaluate_where H (rs ! i) w))
     \<and> rs' = map (\<lambda>r. if Table_evaluate_where H r w = Inr True then dict_update r vals else r)
                (take k rs) @ drop k rs"
proof (induction rs arbitrary: rs')
  case Nil
  then show ?case by simp
next
  case (Cons r rs)
  show ?case
  proof (cases "Table_evaluate_where H r w")
    case (Inl e')
    with Cons.prems have "e' = e" "rs' = r # rs" by auto
    with Inl show ?thesis by (intro exI[of _ 0]) simp
  next
    case (Inr b)
    obtain rest' res where u: "update_rows H vals (Some w) rs = (rest', res)"
      by (cases "update_rows H vals (Some w) rs")
    with Cons.prems Inr have res: "res = Inl e"
      and rs': "rs' = (if b then dict_update r vals else r) # rest'"
      by (auto simp: Let_def split: sum.splits)
    from Cons.IH[OF u[unfolded res]] obtain k where k: "k < length rs"
      "Table_evaluate_where H (rs ! k) w = Inl e"
      "\<forall>i < k. \<not> isl (Table_evaluate_where H (rs ! i) w)"
      "rest' = map (\<lambda>r. if Table_evaluate_where H r w = Inr True then dict_update r vals else r)
                (take k rs) @ drop k rs"
      by blast
    have "\<forall>i < Suc k. \<not> isl (Table_evaluate_where H ((r # rs) ! i) w)"
      using k(3) Inr by (auto simp: less_Suc_eq_0_disj)
    moreover have "rs' = map (\<lambda>r. if Table_evaluate_where H r w = Inr True then dict_update r vals else r)
                (take (Suc k) (r # rs)) @ drop (Suc k) (r # rs)"
      using rs' k(4) Inr by (cases b) simp_all
    ultimately show ?thesis using k(1,2) by (intro exI[of _ "Suc k"]) simp
  qed
qed

lemma update_rows_all:
  "snd (update_rows H vals None rs) = Inr (int (length rs))
   \<and> fst (update_rows H vals None rs) = map (\<lambda>r. dict_update r vals) rs"
  by (induction rs) (auto simp: Let_def split: prod.splits)

text \<open>
  C2, amended. The names of the columns and the types of the values are validated
  completely before any row is touched: an update is refused with a column-name error
  exactly when some key is not a declared column, and when that check or the type
  validation raises, the call ends with that error and the table is as it was. A table
  that differs after the call has passed both validations. An error after them comes
  from the condition on some row: no row before it raised, those of them that match are
  updated, and that row and the rows after it are as they were.
\<close>

theorem update_validates_before_mutation:
  "(check_value_names t vals = Inr () \<longleftrightarrow> (\<forall>(c, v) \<in> set vals. column_map t c \<noteq> None))
   \<and> (check_value_names t vals = Inl e \<longrightarrow> Table_update H t vals w = (t, Inl e))
   \<and> (check_value_names t vals = Inr () \<and> Table_validate_types t vals = Inl e \<longrightarrow>
        Table_update H t vals w = (t, Inl e))
   \<and> (fst (Table_update H t vals w) \<noteq> t \<longrightarrow>
        check_value_names t vals = Inr () \<and> Table_validate_types t vals = Inr ())
   \<and> (check_value_names t vals = Inr () \<and> Table_validate_types t vals = Inr ()
        \<and> Table_update H t vals w = (t', Inl e) \<longrightarrow>
        (\<exists>wc k. w = Some wc \<and> k < length (rows t)
           \<and> Table_evaluate_where H (rows t ! k) wc = Inl e
           \<and> (\<forall>i < k. \<not> isl (Table_evaluate_where H (rows t ! i) wc))
           \<and> rows t' =
               map (\<lambda>r. if Table_evaluate_where H r wc = Inr True then dict_update r vals else r)
                 (take k (rows t)) @ drop k (rows t)))"
proof (intro conjI impI)
  show "check_value_names t vals = Inr () \<longleftrightarrow> (\<forall>(c, v) \<in> set vals. column_map t c \<noteq> None)"
    by (rule check_value_names_ok_iff)
next
  assume "check_value_names t vals = Inl e"
  then show "Table_update H t vals w = (t, Inl e)" by (simp add: Table_update_def)
next
  assume "check_value_names t vals = Inr () \<and> Table_validate_types t vals = Inl e"
  then show "Table_update H t vals w = (t, Inl e)" by (simp add: Table_update_def)
next
  assume a: "fst (Table_update H t vals w) \<noteq> t"
  then show "check_value_names t vals = Inr ()"
    by (cases "check_value_names t vals") (auto simp: Table_update_def)
  from a show "Table_validate_types t vals = Inr ()"
    by (cases "check_value_names t vals"; cases "Table_validate_types t vals")
       (auto simp: Table_update_def)
next
  assume a: "check_value_names t vals = Inr () \<and> Table_validate_types t vals = Inr ()
        \<and> Table_update H t vals w = (t', Inl e)"
  obtain rs' res where u: "update_rows H vals w (rows t) = (rs', res)"
    by (cases "update_rows H vals w (rows t)")
  from a have "Table_update H t vals w = (let (rows', res) = update_rows H vals w (rows t)
                in (t\<lparr>rows := rows'\<rparr>, res))"
    by (simp add: Table_update_def)
  with a u have t': "t' = t\<lparr>rows := rs'\<rparr>" and res: "res = Inl e"
    by auto
  show "\<exists>wc k. w = Some wc \<and> k < length (rows t)
           \<and> Table_evaluate_where H (rows t ! k) wc = Inl e
           \<and> (\<forall>i < k. \<not> isl (Table_evaluate_where H (rows t ! i) wc))
           \<and> rows t' =
               map (\<lambda>r. if Table_evaluate_where H r wc = Inr True then dict_update r vals else r)
                 (take k (rows t)) @ drop k (rows t)"
  proof (cases w)
    case None
    with u res update_rows_all[of H vals "rows t"] show ?thesis by simp
  next
    case (Some wc)
    from update_rows_error_prefix[OF u[unfolded res Some]] Some t' show ?thesis by auto
  qed
qed

theorem update_validates_before_mutation_witness:
  "Table_update no_float_host (ex_table [alice, bob] 3) [(''age'', PInt 21), (''nosuch'', PInt 1)] None =
     (ex_table [alice, bob] 3, Inl (ValueError (ColumnDoesNotExist ''nosuch'')))
   \<and> Table_update no_float_host (ex_table [alice, bob] 3) [(''age'', PInt 21), (''name'', PInt 1)] None =
     (ex_table [alice, bob] 3, Inl (ValueError (ExpectsType ''name'' TEXT ''int'')))
   \<and> fst (Table_update no_float_host (ex_table [alice, bob] 3) [(''age'', PInt 21)] None) \<noteq> ex_table [alice, bob] 3
   \<and> check_value_names (ex_table [alice, bob] 3) [(''age'', PInt 21)] = Inr ()
   \<and> Table_validate_types (ex_table [alice, bob] 3) [(''age'', PInt 21)] = Inr ()
   \<and> Table_update no_float_host (ex_table [alice, carol] 3) [(''name'', PStr ''Al'')] (Some ''age > 18'') =
       (ex_table [dict_update alice [(''name'', PStr ''Al'')], carol] 3, Inl TypeError)
   \<and> (\<exists>wc k. Some ''age > 18'' = Some wc \<and> k < length (rows (ex_table [alice, carol] 3))
         \<and> Table_evaluate_where no_float_host (rows (ex_table [alice, carol] 3) ! k) wc = Inl TypeError
         \<and> rows (ex_table [dict_update alice [(''name'', PStr ''Al'')], carol] 3) =
             map (\<lambda>r. if Table_evaluate_where no_float_host r wc = Inr True
                      then dict_update r [(''name'', PStr ''Al'')] else r)
               (take k (rows (ex_table [alice, carol] 3))) @ drop k (rows (ex_table [alice, carol] 3)))"
proof -
  let ?t = "ex_table [alice, bob] 3" and ?u = "ex_table [alice, carol] 3"
  let ?u' = "ex_table [dict_update alice [(''name'', PStr ''Al'')], carol] 3"
  have 1: "check_value_names ?t [(''age'', PInt 21), (''nosuch'', PInt 1)] = Inl (ValueError (ColumnDoesNotExist ''nosuch''))"
    by code_simp
  have 2: "check_value_names ?t [(''age'', PInt 21), (''name'', PInt 1)] = Inr ()
           \<and> Table_validate_types ?t [(''age'', PInt 21), (''name'', PInt 1)] =
               Inl (ValueError (ExpectsType ''name'' TEXT ''int''))"
    by code_simp
  have 3: "fst (Table_update no_float_host ?t [(''age'', PInt 21)] None) \<noteq> ?t"
    by code_simp
  have 4: "check_value_names ?u [(''name'', PStr ''Al'')] = Inr ()
           \<and> Table_validate_types ?u [(''name'', PStr ''Al'')] = Inr ()
           \<and> Table_update no_float_host ?u [(''name'', PStr ''Al'')] (Some ''age > 18'') = (?u', Inl TypeError)"
    by code_simp
  note th = update_validates_before_mutation
  from th[of ?t "[(''age'', PInt 21), (''nosuch'', PInt 1)]" _ no_float_host None] 1
  have a: "Table_update no_float_host ?t [(''age'', PInt 21), (''nosuch'', PInt 1)] None =
     (?t, Inl (ValueError (ColumnDoesNotExist ''nosuch'')))" by blast
  from th[of ?t "[(''age'', PInt 21), (''name'', PInt 1)]" _ no_float_host None] 2
  have b: "Table_update no_float_host ?t [(''age'', PInt 21), (''name'', PInt 1)] None =
     (?t, Inl (ValueError (ExpectsType ''name'' TEXT ''int'')))" by blast
  from th[of ?t "[(''age'', PInt 21)]" _ no_float_host None] 3
  have c: "check_value_names ?t [(''age'', PInt 21)] = Inr ()
           \<and> Table_validate_types ?t [(''age'', PInt 21)] = Inr ()" by blast
  from th[of ?u "[(''name'', PStr ''Al'')]" TypeError no_float_host "Some ''age > 18''" ?u'] 4
  have d: "\<exists>wc k. Some ''age > 18'' = Some wc \<and> k < length (rows ?u)
         \<and> Table_evaluate_where no_float_host (rows ?u ! k) wc = Inl TypeError
         \<and> rows ?u' =
             map (\<lambda>r. if Table_evaluate_where no_float_host r wc = Inr True
                      then dict_update r [(''name'', PStr ''Al'')] else r)
               (take k (rows ?u)) @ drop k (rows ?u)"
    by blast
  from a b 3 c 4 d show ?thesis by blast
qed

text \<open>
  C2, as stated, fails: an error raised while the condition is evaluated on a row comes
  after the rows before it were updated in place, and nothing is undone. With the rows of
  Alice (age 20) and Carol (age \<^verbatim>\<open>None\<close>), \<^verbatim>\<open>update({"name": "Al"}, "age > 18")\<close> renames
  Alice and then raises \<^verbatim>\<open>TypeError\<close> on Carol's row.
\<close>

theorem update_partial_before_error_counterexample:
  "Table_update no_float_host (ex_table [alice, carol] 3) [(''name'', PStr ''Al'')] (Some ''age > 18'') =
     (ex_table [[(''id'', PInt 1), (''name'', PStr ''Al''), (''age'', PInt 20)], carol] 3, Inl TypeError)
   \<and> rows (fst (Table_update no_float_host (ex_table [alice, carol] 3) [(''name'', PStr ''Al'')] (Some ''age > 18'')))
       \<noteq> rows (ex_table [alice, carol] 3)"
  by code_simp



subsection \<open>Further facts: equality, stored rows, the scenario of the specification\<close>

lemma float_eq_sym: "float_eq a b = float_eq b a"
  by (cases a; cases b) auto

lemma py_eq_sym: "py_eq a b = py_eq b a"
  by (cases a; cases b) (auto simp: py_eq_def float_eq_sym)

lemma dict_set_keys: "k \<in> fst ` set d \<Longrightarrow> map fst (dict_set d k v) = map fst d"
proof (induction d)
  case Nil
  then show ?case by simp
next
  case (Cons p d)
  obtain k' v' where p: "p = (k', v')" by (cases p)
  show ?case
  proof (cases "k' = k")
    case True
    with p show ?thesis by simp
  next
    case False
    with Cons.prems p have "k \<in> fst ` set d" by auto
    from Cons.IH[OF this] False p show ?thesis by simp
  qed
qed

lemma dict_update_keys:
  "fst ` set other \<subseteq> fst ` set d \<Longrightarrow> map fst (dict_update d other) = map fst d"
  unfolding dict_update_def
proof (induction other arbitrary: d)
  case Nil
  show ?case by simp
next
  case (Cons p other)
  obtain k v where p: "p = (k, v)" by (cases p)
  with Cons.prems have k: "k \<in> fst ` set d" by auto
  have keys: "map fst (dict_set d k v) = map fst d" by (rule dict_set_keys[OF k])
  then have "fst ` set (dict_set d k v) = fst ` set d" by (metis list.set_map)
  with Cons.prems have "fst ` set other \<subseteq> fst ` set (dict_set d k v)" by auto
  from Cons.IH[OF this] show ?case by (simp add: p keys)
qed

lemma update_rows_keys:
  assumes "\<forall>row \<in> set rs. fst ` set vals \<subseteq> fst ` set row"
  shows "map (map fst) (fst (update_rows H vals w rs)) = map (map fst) rs"
  using assms
proof (induction rs)
  case Nil
  show ?case by simp
next
  case (Cons r rs)
  then have "map fst (dict_update r vals) = map fst r" by (simp add: dict_update_keys)
  with Cons show ?case
    by (auto simp: Let_def split: sum.splits prod.splits option.splits)
qed

lemma check_value_names_declared:
  "check_value_names t vals = Inr () \<Longrightarrow> fst ` set vals \<subseteq> name ` set (columns t)"
proof (induction vals)
  case Nil
  show ?case by simp
next
  case (Cons p vals)
  obtain k v where p: "p = (k, v)" by (cases p)
  from Cons.prems p obtain c where c: "column_map t k = Some c"
    by (cases "column_map t k") auto
  then have "k \<in> name ` set (columns t)"
    unfolding column_map_def by (auto dest!: map_of_SomeD)
  with Cons p c show ?case by auto
qed

lemma insert_keeps_rows_ok:
  assumes "distinct (map name (columns t))" and "rows_ok t"
  shows "rows_ok (fst (Table_insert t vals))"
proof -
  from assms(1) have "distinct (map fst ([] :: pydict) @ map name (columns t))" by simp
  from build_row_fresh[OF this, of vals "next_id t"]
  have "map fst (build_row (columns t) vals (next_id t) []) = map name (columns t)"
    by (simp add: comp_def)
  with assms(2) show ?thesis
    by (auto simp: Table_insert_def rows_ok_def Let_def split: sum.splits option.splits)
qed

lemma delete_keeps_rows_ok:
  assumes "rows_ok t"
  shows "rows_ok (fst (Table_delete H t w))"
proof (cases w)
  case None
  then show ?thesis by (simp add: Table_delete_def rows_ok_def)
next
  case (Some wc)
  show ?thesis
  proof (cases "filter_rows H wc False (rows t)")
    case (Inl e)
    with Some assms show ?thesis by (simp add: Table_delete_def)
  next
    case (Inr out)
    from filter_rows_result[OF this] Some Inr assms show ?thesis
      by (simp add: Table_delete_def rows_ok_def)
  qed
qed

lemma update_keeps_rows_ok:
  assumes "rows_ok t"
  shows "rows_ok (fst (Table_update H t vals w))"
proof (cases "check_value_names t vals = Inr () \<and> Table_validate_types t vals = Inr ()")
  case False
  then have "fst (Table_update H t vals w) = t"
    by (cases "check_value_names t vals"; cases "Table_validate_types t vals")
       (auto simp: Table_update_def)
  with assms show ?thesis by simp
next
  case True
  then have "fst ` set vals \<subseteq> name ` set (columns t)"
    by (simp add: check_value_names_declared)
  with assms have "\<forall>row \<in> set (rows t). fst ` set vals \<subseteq> fst ` set row"
    unfolding rows_ok_def by (metis list.set_map)
  from update_rows_keys[OF this, of H w]
  have k: "map (map fst) (fst (update_rows H vals w (rows t))) = map (map fst) (rows t)" .
  have "\<forall>row \<in> set (fst (update_rows H vals w (rows t))). map fst row = map name (columns t)"
  proof
    fix row assume "row \<in> set (fst (update_rows H vals w (rows t)))"
    then have "map fst row \<in> set (map (map fst) (rows t))"
      unfolding k[symmetric] by simp
    with assms show "map fst row = map name (columns t)" by (auto simp: rows_ok_def)
  qed
  with True show ?thesis
    by (auto simp: Table_update_def rows_ok_def split: prod.splits)
qed

lemma spec_scenario:
  "Table_insert (ex_table [] 1) [(''name'', PStr ''Alice''), (''age'', PInt 20)] = (ex_table [alice] 2, Inr (PInt 1))"
  "Table_insert (ex_table [alice] 2) [(''name'', PStr ''Bob''), (''age'', PInt 17)] = (ex_table [alice, bob] 3, Inr (PInt 2))"
  "Table_select no_float_host (ex_table [alice, bob] 3) None (Some ''age >= 18'') = Inr [alice]"
  "Table_update no_float_host (ex_table [alice, bob] 3) [(''age'', PInt 21)]
     (Some (''name = '' @ [CHR 0x27] @ ''Alice'' @ [CHR 0x27])) =
     (ex_table [[(''id'', PInt 1), (''name'', PStr ''Alice''), (''age'', PInt 21)], bob] 3, Inr 1)"
  "Table_select no_float_host (ex_table [[(''id'', PInt 1), (''name'', PStr ''Alice''), (''age'', PInt 21)], bob] 3)
     (Some [''age'']) (Some ''id = 1'') = Inr [[(''age'', PInt 21)]]"
  "Table_delete no_float_host (ex_table [[(''id'', PInt 1), (''name'', PStr ''Alice''), (''age'', PInt 21)], bob] 3)
     (Some ''age < 18'') =
     (ex_table [[(''id'', PInt 1), (''name'', PStr ''Alice''), (''age'', PInt 21)]] 3, Inr 1)"
  by code_simp+

subsection \<open>LIKE\<close>

lemma like_regex_Nil: "like_regex [] = []"
  by (simp add: like_regex_def str_replace_char_def)

lemma like_regex_Cons:
  "like_regex (c # p) =
     (if c = CHR ''%'' then ''.*'' else if c = CHR ''_'' then ''.'' else [c]) @ like_regex p"
  by (simp add: like_regex_def str_replace_char_def)

lemma like_regex_head:
  assumes "\<forall>c \<in> set p. c \<notin> set re_special" and "p \<noteq> []"
  shows "\<exists>d cs. like_regex p = d # cs \<and> d \<noteq> CHR ''*''"
proof -
  from assms(2) obtain c p' where p: "p = c # p'" by (cases p) auto
  with assms(1) have "c \<noteq> CHR ''*''" by (auto simp: re_special_def)
  with p show ?thesis by (auto simp: like_regex_Cons)
qed

lemma re_parse_single:
  assumes "re_atom_of c = Some a" and "rest = [] \<or> hd rest \<noteq> CHR ''*''"
  shows "re_parse (c # rest) = map_option ((#) (Single a)) (re_parse rest)"
  using assms by (cases rest) auto

lemma re_parse_like:
  assumes "\<forall>c \<in> set p. c \<notin> set re_special"
  shows "re_parse (like_regex p) = Some (map like_item p)"
  using assms
proof (induction p)
  case Nil
  show ?case by (simp add: like_regex_Nil)
next
  case (Cons c p)
  then have ih: "re_parse (like_regex p) = Some (map like_item p)" by simp
  have rest: "like_regex p = [] \<or> hd (like_regex p) \<noteq> CHR ''*''"
  proof (cases "p = []")
    case True
    then show ?thesis by (simp add: like_regex_Nil)
  next
    case False
    from like_regex_head[OF _ False] Cons.prems show ?thesis by auto
  qed
  from Cons.prems have c: "c \<notin> set re_special" by simp
  show ?case
  proof (cases "c = CHR ''%''")
    case True
    then show ?thesis
      by (simp add: like_regex_Cons ih like_item_def re_atom_of_def)
  next
    case False
    show ?thesis
    proof (cases "c = CHR ''_''")
      case True
      have "re_atom_of CHR ''.'' = Some ReDot" by (simp add: re_atom_of_def)
      from re_parse_single[OF this rest] True show ?thesis
        by (simp add: like_regex_Cons ih like_item_def)
    next
      case u: False
      from c have "c \<noteq> CHR ''.''" by (auto simp: re_special_def)
      with c have "re_atom_of c = Some (ReChar c)" by (simp add: re_atom_of_def)
      from re_parse_single[OF this rest] False u show ?thesis
        by (simp add: like_regex_Cons ih like_item_def)
    qed
  qed
qed

lemma re_run_like:
  "CHR 0x0A \<notin> set s \<Longrightarrow> re_run (map like_item p) s = sql_like p s"
proof (induction p s rule: sql_like.induct)
  case (1 s)
  then show ?case by auto
next
  case (2 p ps)
  then show ?case by (simp add: like_item_def)
next
  case (3 p ps x xs)
  then show ?case by (auto simp: like_item_def)
qed

lemma like_plain_pattern:
  assumes "\<forall>c \<in> set p. c \<notin> set re_special" and "CHR 0x0A \<notin> set s"
  shows "re_match_anchored H (like_regex p) s = Inr (sql_like p s)"
  by (simp add: re_match_anchored_def re_parse_like[OF assms(1)] re_run_like[OF assms(2)])

lemma like_condition_shape:
  assumes "plain_name col" and "pat \<noteq> []" and "last pat \<notin> set whitespace"
    and "\<not> str_contains '' LIKE '' pat"
  shows "Table_evaluate_condition H row (col @ '' LIKE '' @ pat) =
           (case map_of row col of
              None \<Rightarrow> Inl (ValueError (ColumnDoesNotExist col))
            | Some v \<Rightarrow>
                (case py_str H v of
                   Inl e \<Rightarrow> Inl e
                 | Inr s \<Rightarrow> re_match_anchored H (like_regex (strip_quotes (str_strip pat))) s))"
proof -
  let ?c = "col @ '' LIKE '' @ pat"
  have s: "str_strip ?c = ?c"
    unfolding str_strip_def
  proof (rule strip_chars_id)
    show "?c \<noteq> []" by simp
    from assms(1) show "hd ?c \<notin> set whitespace" by (cases col) (auto simp: plain_name_def)
    from assms(2,3) show "last ?c \<notin> set whitespace" by simp
  qed
  have c: "str_contains '' LIKE '' ?c"
    unfolding str_contains_sublist by (rule sublist_appendI)
  have b: "butlast '' LIKE '' = '' LIKE''" by simp
  have "\<not> sublist '' LIKE '' '' LIKE''"
    using sublist_length_le[of "'' LIKE ''" "'' LIKE''"] by auto
  then have n: "\<not> str_contains '' LIKE '' (col @ butlast '' LIKE '')"
    unfolding b using str_contains_skip[OF plain_name_no_space[OF assms(1)], of "''LIKE ''" "'' LIKE''"]
    by (simp add: str_contains_sublist)
  have "str_split '' LIKE '' ?c = col # str_split '' LIKE '' pat"
    by (rule str_split_first[OF _ n]) simp
  then have p: "str_split '' LIKE '' ?c = [col, pat]"
    by (simp add: str_split_no_sep[OF assms(4)])
  show ?thesis
    unfolding Table_evaluate_condition_def s Let_def
    using c p plain_name_strip[OF assms(1)] by (simp split: option.splits sum.splits)
qed

text \<open>
  Where the code and the specification agree: on a pattern without characters special to
  \<^verbatim>\<open>re\<close> and a value whose text has no newline, LIKE is the match of
  \<^const>\<open>sql_like\<close> against the text of the value.
\<close>

lemma like_condition_plain:
  assumes "plain_name col" and "pat \<noteq> []" and "last pat \<notin> set whitespace"
    and "\<not> str_contains '' LIKE '' pat"
    and "\<forall>c \<in> set (strip_quotes (str_strip pat)). c \<notin> set re_special"
    and "map_of row col = Some v" and "py_str H v = Inr s" and "CHR 0x0A \<notin> set s"
  shows "Table_evaluate_condition H row (col @ '' LIKE '' @ pat) =
           Inr (sql_like (strip_quotes (str_strip pat)) s)"
  unfolding like_condition_shape[OF assms(1-4)]
  using like_plain_pattern[OF assms(5,8)] assms(6,7) by simp

text \<open>
  C3. The claim reads a LIKE pattern as \<^const>\<open>sql_like\<close> does: \<^verbatim>\<open>%\<close> is any run of
  characters, \<^verbatim>\<open>_\<close> is one character, every other character is itself, and the whole
  value must match. The code turns the pattern into a regular expression without escaping
  it, so a character that is special to \<^verbatim>\<open>re\<close> keeps its regex meaning: the pattern
  \<^verbatim>\<open>a.c\<close> matches the value \<^verbatim>\<open>abc\<close>, which it does not match literally.
\<close>

theorem like_dot_matches_any_character:
  "sql_like ''a.c'' ''abc'' = False
   \<and> Table_evaluate_condition H [(''name'', PStr ''abc'')] ''name LIKE a.c'' = Inr True"
  by code_simp

end
